theory Spec2Isabelle
  imports Main "HOL-Library.Word"
begin

section \<open>Values of the Move modules\<close>

text \<open>
  The two Move modules \<open>wb::utility\<close> and \<open>wb::loyalty\<close> work on \<open>u64\<close> numbers, byte
  vectors, 32-byte addresses and object identifiers. A \<open>u64\<close> is a 64-bit word; Move's
  \<open>+\<close> and \<open>-\<close> on it abort on overflow and underflow, which the entry functions below
  write out. An \<open>address\<close> and an \<open>ID\<close> are 256-bit words.
\<close>

type_synonym u8 = "8 word"
type_synonym u64 = "64 word"
type_synonym bytes = "u8 list"
type_synonym address = "256 word"
type_synonym ID = "256 word"

text \<open>\<open>bcs::to_bytes\<close> of a \<open>u64\<close>: its eight bytes, least significant first.\<close>

definition bcs_to_bytes :: "u64 \<Rightarrow> bytes" where
  "bcs_to_bytes v = map (\<lambda>i. ucast (drop_bit (8 * i) v)) [0..<8]"

text \<open>\<open>address::to_bytes\<close>: the 32 bytes of the address, most significant first.\<close>

definition address_to_bytes :: "address \<Rightarrow> bytes" where
  "address_to_bytes a = rev (map (\<lambda>i. ucast (drop_bit (8 * i) a)) [0..<32])"

text \<open>
  The platform's native functions and the functions of the \<open>nft_protocol\<close> package are
  not part of the repository. The model takes them as parameters, one record for all:
  \<^item> \<open>ed25519_verify signature public_key msg\<close> is \<open>sui::ed25519::ed25519_verify\<close>,
    declared with result \<open>bool\<close>;
  \<^item> \<open>keccak256\<close> is \<open>sui::hash::keccak256\<close>;
  \<^item> \<open>derive_id tx_hash n\<close> is the address \<open>object::new\<close> gives the \<open>n\<close>-th object of a
    transaction;
  \<^item> \<open>check_utf8\<close> is the test \<open>std::string::utf8\<close> aborts on when it fails;
  \<^item> \<open>attributes_from_vec\<close> is \<open>nft_protocol::attributes::from_vec\<close>, \<open>None\<close> where it
    aborts.
\<close>

type_synonym Attributes = "(bytes \<times> bytes) list"

record natives =
  ed25519_verify :: "bytes \<Rightarrow> bytes \<Rightarrow> bytes \<Rightarrow> bool"
  keccak256 :: "bytes \<Rightarrow> bytes"
  derive_id :: "bytes \<Rightarrow> nat \<Rightarrow> ID"
  check_utf8 :: "bytes \<Rightarrow> bool"
  attributes_from_vec :: "bytes list \<Rightarrow> bytes list \<Rightarrow> Attributes option"

text \<open>
  Every way a call can abort. The first five are the constants of \<open>wb::utility\<close>
  (codes 0 to 4), \<open>ETicketTypeMisMatch\<close> is the constant of \<open>wb::loyalty\<close> (code 0) and
  \<open>ECreditsExceeded\<close> stands for the literal code 1 of the two credit assertions of
  \<open>wb::loyalty\<close>. The others are raised inside the framework: by
  \<open>dynamic_object_field::borrow\<close> on a missing field and \<open>add\<close> on an existing one, by
  \<open>table::add\<close> on an existing key, by \<open>vec_map::get\<close> and \<open>vec_map::insert\<close>, by
  \<open>string::utf8\<close>, by \<open>attributes::from_vec\<close>, and by \<open>u64\<close> arithmetic.
\<close>

datatype abort =
    ENotAdmin
  | ENotUpgrade
  | EWrongVersion
  | ENonceAlreadyUsed
  | EInvalidSignature
  | ETicketTypeMisMatch
  | ECreditsExceeded
  | EFieldDoesNotExist
  | EFieldAlreadyExists
  | ETableKeyAlreadyExists
  | EKeyDoesNotExist
  | EKeyAlreadyExists
  | EInvalidUTF8
  | EInvalidAttributes
  | EArithmeticError

datatype module = Wb_utility | Wb_loyalty | Framework

text \<open>The module an abort is raised in and, for the two modules of the repository, its code.\<close>

fun abort_module :: "abort \<Rightarrow> module" where
  "abort_module ENotAdmin = Wb_utility"
| "abort_module ENotUpgrade = Wb_utility"
| "abort_module EWrongVersion = Wb_utility"
| "abort_module ENonceAlreadyUsed = Wb_utility"
| "abort_module EInvalidSignature = Wb_utility"
| "abort_module ETicketTypeMisMatch = Wb_loyalty"
| "abort_module ECreditsExceeded = Wb_loyalty"
| "abort_module _ = Framework"

fun abort_code :: "abort \<Rightarrow> nat option" where
  "abort_code ENotAdmin = Some 0"
| "abort_code ENotUpgrade = Some 1"
| "abort_code EWrongVersion = Some 2"
| "abort_code ENonceAlreadyUsed = Some 3"
| "abort_code EInvalidSignature = Some 4"
| "abort_code ETicketTypeMisMatch = Some 0"
| "abort_code ECreditsExceeded = Some 1"
| "abort_code _ = None"

section \<open>Module \<open>wb::utility\<close>\<close>

definition VERSION :: u64 where
  "VERSION = 2"

record AdminCap =
  cap_id :: ID

text \<open>
  \<open>Config\<close>. Its field \<open>used_nonces\<close> is the \<open>TableVec\<close> no function reads any more; the
  nonces live in a \<open>Table<u64, bool>\<close> stored under the dynamic object field
  \<open>b"used_nonces"\<close> of the object, \<open>None\<close> as long as \<open>add_used_nonces_table_dof\<close> has not
  added it. \<open>collections\<close> is a \<open>VecMap\<close>, a vector of pairs with distinct keys.
\<close>

record Config =
  config_id :: ID
  version :: u64
  admin :: ID
  signer :: bytes
  used_nonces :: "u64 list"
  collections :: "(bytes \<times> ID) list"
  used_nonces_dof :: "(u64 \<rightharpoonup> bool) option"

record TxContext =
  sender :: address
  tx_hash :: bytes
  ids_created :: nat

text \<open>\<open>object::new\<close>: the next fresh identifier of the transaction.\<close>

definition object_new :: "natives \<Rightarrow> TxContext \<Rightarrow> ID \<times> TxContext" where
  "object_new nv ctx =
     (derive_id nv (tx_hash ctx) (ids_created ctx), ctx\<lparr>ids_created := ids_created ctx + 1\<rparr>)"

text \<open>
  \<open>create_config\<close> takes two fresh identifiers from the context: the one of the
  \<open>Config\<close> and, in \<open>table_vec::empty\<close>, the one of the table behind the empty
  \<open>TableVec\<close>, of which the model keeps the contents only.
\<close>

definition create_config :: "natives \<Rightarrow> ID \<Rightarrow> bytes \<Rightarrow> TxContext \<Rightarrow> Config \<times> TxContext" where
  "create_config nv admin_id signer_pubkey ctx =
     (let (i, ctx1) = object_new nv ctx;
          (table_id, ctx2) = object_new nv ctx1 in
      (\<lparr>config_id = i, version = VERSION, admin = admin_id, signer = signer_pubkey,
        used_nonces = [], collections = [], used_nonces_dof = None\<rparr>, ctx2))"

definition set_signer :: "AdminCap \<Rightarrow> bytes \<Rightarrow> Config \<Rightarrow> abort + Config" where
  "set_signer cap new_signer config = Inr (config\<lparr>signer := new_signer\<rparr>)"

text \<open>\<open>vec_map::insert\<close> aborts on a key the map holds already.\<close>

definition add_collection_internal :: "bytes \<Rightarrow> ID \<Rightarrow> Config \<Rightarrow> abort + Config" where
  "add_collection_internal name v config =
     (if name \<in> fst ` set (collections config) then Inl EKeyAlreadyExists
      else Inr (config\<lparr>collections := collections config @ [(name, v)]\<rparr>))"

definition add_collection :: "AdminCap \<Rightarrow> bytes \<Rightarrow> ID \<Rightarrow> Config \<Rightarrow> abort + Config" where
  "add_collection cap name v config = add_collection_internal name v config"

definition migrate :: "AdminCap \<Rightarrow> Config \<Rightarrow> abort + Config" where
  "migrate a c =
     (if admin c \<noteq> cap_id a then Inl ENotAdmin
      else if \<not> version c < VERSION then Inl ENotUpgrade
      else Inr (c\<lparr>version := VERSION\<rparr>))"

text \<open>
  \<open>add_used_nonces_table_dof\<close>: \<open>dynamic_object_field::add\<close> aborts when the field exists.
  The fresh identifier of the new table is taken from the transaction context, which
  the four functions on the \<open>Config\<close> alone leave out.
\<close>

definition add_used_nonces_table_dof :: "AdminCap \<Rightarrow> Config \<Rightarrow> abort + Config" where
  "add_used_nonces_table_dof cap c =
     (case used_nonces_dof c of
        Some t \<Rightarrow> Inl EFieldAlreadyExists
      | None \<Rightarrow> Inr (c\<lparr>used_nonces_dof := Some Map.empty\<rparr>))"

definition mark_nonce_used :: "Config \<Rightarrow> u64 \<Rightarrow> abort + Config" where
  "mark_nonce_used config nonce =
     (case used_nonces_dof config of
        None \<Rightarrow> Inl EFieldDoesNotExist
      | Some t \<Rightarrow>
          (if nonce \<in> dom t then Inl ETableKeyAlreadyExists
           else Inr (config\<lparr>used_nonces_dof := Some (t(nonce \<mapsto> True))\<rparr>)))"

definition assert_version :: "Config \<Rightarrow> abort + unit" where
  "assert_version config = (if version config = VERSION then Inr () else Inl EWrongVersion)"

definition nonce_used :: "Config \<Rightarrow> u64 \<Rightarrow> abort + bool" where
  "nonce_used config nonce =
     (case used_nonces_dof config of
        None \<Rightarrow> Inl EFieldDoesNotExist
      | Some t \<Rightarrow> Inr (nonce \<in> dom t))"

definition assert_nonce :: "Config \<Rightarrow> u64 \<Rightarrow> abort + unit" where
  "assert_nonce config nonce =
     (case nonce_used config nonce of
        Inl e \<Rightarrow> Inl e
      | Inr used \<Rightarrow> (if used = False then Inr () else Inl ENonceAlreadyUsed))"

definition signature_valid :: "natives \<Rightarrow> Config \<Rightarrow> bytes \<Rightarrow> bytes \<Rightarrow> bool" where
  "signature_valid nv config signature hashed_msg =
     ed25519_verify nv signature (signer config) hashed_msg"

definition assert_signature :: "natives \<Rightarrow> Config \<Rightarrow> bytes \<Rightarrow> bytes \<Rightarrow> abort + unit" where
  "assert_signature nv config signature hashed_msg =
     (if signature_valid nv config signature hashed_msg = True then Inr ()
      else Inl EInvalidSignature)"

text \<open>\<open>utf8\<close> aborts on bytes that are not UTF-8, \<open>vec_map::get\<close> on a missing key.\<close>

definition collection_id_by_name :: "natives \<Rightarrow> Config \<Rightarrow> bytes \<Rightarrow> abort + ID" where
  "collection_id_by_name nv config name =
     (if \<not> check_utf8 nv name then Inl EInvalidUTF8
      else case map_of (collections config) name of
        None \<Rightarrow> Inl EKeyDoesNotExist
      | Some i \<Rightarrow> Inr i)"

section \<open>Module \<open>wb::loyalty\<close>\<close>

text \<open>
  A \<open>Box\<close> stores the loyalty points of a user, a \<open>Ticket\<close> carries points that are for
  sale. The fields \<open>id\<close>, \<open>type\<close>, \<open>name\<close> and \<open>attributes\<close> of the two structs carry the
  struct's name here, since a record field is a constant of its own.
\<close>

record Box =
  box_id :: ID
  box_type :: u64
  box_name :: bytes
  infinity_credits :: u64
  box_attributes :: Attributes

record Ticket =
  ticket_id :: ID
  ticket_type :: u64
  ticket_name :: bytes
  ticket_infinity_credits :: u64
  ticket_attributes :: Attributes

text \<open>
  The events, with their fields in the order of the structs. \<open>MintEvent\<close> and
  \<open>BurnEvent\<close> are the events of \<open>nft_protocol::mint_event\<close>: collection and object.
\<close>

datatype event =
    BoxCreated ID u64 u64 bytes u64 address
  | BoxLoyaltyPointsSynced ID u64 u64 address
  | BoxLoyaltyPointsUpdated ID u64 address
  | TicketCreated ID ID u64 u64 bytes u64 address
  | TicketApplied ID ID u64 u64 address
  | MintEvent ID ID
  | BurnEvent ID ID

text \<open>
  What one call of an entry function can change besides the \<open>Box\<close> it borrows: the
  shared \<open>Config\<close>, the transaction context, the events emitted, the objects
  transferred and the identifiers deleted.
\<close>

record frame =
  config :: Config
  ctx :: TxContext
  events :: "event list"
  boxes_sent :: "(Box \<times> address) list"
  tickets_sent :: "(Ticket \<times> address) list"
  deleted :: "ID list"

text \<open>
  A call runs to its end (\<open>Done\<close>) or aborts. \<open>Aborted e s\<close> keeps the state \<open>s\<close> the
  call had reached when it aborted: the statements of the entry functions are modelled
  one by one, so that whether a check comes before or after a mutation is visible.
  The platform discards the state of an aborted transaction (\<open>commit\<close>).
\<close>

datatype 's outcome = Done 's | Aborted abort 's

fun commit :: "'s \<Rightarrow> 's outcome \<Rightarrow> 's" where
  "commit s0 (Done s) = s"
| "commit s0 (Aborted e s) = s0"

fun abort_of :: "'s outcome \<Rightarrow> abort option" where
  "abort_of (Done s) = None"
| "abort_of (Aborted e s) = Some e"

text \<open>
  \<open>check r s k\<close> is a call of a helper function inside an entry function whose state
  is \<open>s\<close>: when the helper aborts, the entry function aborts there, in state \<open>s\<close>;
  otherwise the entry function goes on with the helper's result.
\<close>

definition check :: "abort + 'a \<Rightarrow> 's \<Rightarrow> ('a \<Rightarrow> 's outcome) \<Rightarrow> 's outcome" where
  "check r s k = (case r of Inl e \<Rightarrow> Aborted e s | Inr a \<Rightarrow> k a)"

definition bytes_of :: "string \<Rightarrow> bytes" where
  "bytes_of cs = map of_char cs"

text \<open>Move's checked \<open>u64\<close> addition.\<close>

definition u64_add :: "u64 \<Rightarrow> u64 \<Rightarrow> u64 option" where
  "u64_add a b = (if unat a + unat b < 2 ^ 64 then Some (a + b) else None)"

definition mint_box_for ::
  "natives \<Rightarrow> AdminCap \<Rightarrow> u64 \<Rightarrow> bytes \<Rightarrow> u64 \<Rightarrow> bytes list \<Rightarrow> bytes list \<Rightarrow> address \<Rightarrow>
   frame \<Rightarrow> frame outcome" where
  "mint_box_for nv cap ty name credits attribute_keys attribute_values recipient s =
     (let (i, ctx1) = object_new nv (ctx s); s1 = s\<lparr>ctx := ctx1\<rparr> in
      if \<not> check_utf8 nv name then Aborted EInvalidUTF8 s1 else
      case attributes_from_vec nv attribute_keys attribute_values of
        None \<Rightarrow> Aborted EInvalidAttributes s1
      | Some attrs \<Rightarrow>
          Done (s1\<lparr>boxes_sent := boxes_sent s1 @
            [(\<lparr>box_id = i, box_type = ty, box_name = name, infinity_credits = credits,
               box_attributes = attrs\<rparr>, recipient)]\<rparr>))"

definition claim_box ::
  "natives \<Rightarrow> u64 \<Rightarrow> u64 \<Rightarrow> bytes \<Rightarrow> u64 \<Rightarrow> bytes list \<Rightarrow> bytes list \<Rightarrow> bytes \<Rightarrow>
   frame \<Rightarrow> frame outcome" where
  "claim_box nv nonce ty name credits attribute_keys attribute_values signature s =
     check (assert_version (config s)) s (\<lambda>_.
     check (assert_nonce (config s) nonce) s (\<lambda>_.
     let sender_addr = sender (ctx s);
         msg = address_to_bytes sender_addr @ bcs_to_bytes nonce @ bcs_to_bytes ty
               @ bcs_to_bytes credits;
         hashed_msg = keccak256 nv msg in
     check (assert_signature nv (config s) signature hashed_msg) s (\<lambda>_.
     check (mark_nonce_used (config s) nonce) s (\<lambda>config1.
     let s1 = s\<lparr>config := config1\<rparr>;
         (i, ctx1) = object_new nv (ctx s1);
         s2 = s1\<lparr>ctx := ctx1\<rparr> in
     if \<not> check_utf8 nv name then Aborted EInvalidUTF8 s2 else
     case attributes_from_vec nv attribute_keys attribute_values of
       None \<Rightarrow> Aborted EInvalidAttributes s2
     | Some attrs \<Rightarrow>
         let box = \<lparr>box_id = i, box_type = ty, box_name = name, infinity_credits = credits,
                    box_attributes = attrs\<rparr>;
             s3 = s2\<lparr>events := events s2 @
                    [BoxCreated (box_id box) nonce ty name credits sender_addr]\<rparr> in
         Done (s3\<lparr>boxes_sent := boxes_sent s3 @ [(box, sender_addr)]\<rparr>)))))"

definition sync ::
  "natives \<Rightarrow> u64 \<Rightarrow> u64 \<Rightarrow> bytes \<Rightarrow> Box \<times> frame \<Rightarrow> (Box \<times> frame) outcome" where
  "sync nv nonce credits signature bs =
     (let box = fst bs; s = snd bs in
     check (assert_version (config s)) (box, s) (\<lambda>_.
     check (assert_nonce (config s) nonce) (box, s) (\<lambda>_.
     let sender_addr = sender (ctx s);
         msg = address_to_bytes sender_addr @ bcs_to_bytes nonce @ bcs_to_bytes credits;
         hashed_msg = keccak256 nv msg in
     check (assert_signature nv (config s) signature hashed_msg) (box, s) (\<lambda>_.
     check (mark_nonce_used (config s) nonce) (box, s) (\<lambda>config1.
     let s1 = s\<lparr>config := config1\<rparr> in
     case u64_add (infinity_credits box) credits of
       None \<Rightarrow> Aborted EArithmeticError (box, s1)
     | Some raised \<Rightarrow>
         let box1 = box\<lparr>infinity_credits := raised\<rparr> in
         Done (box1, s1\<lparr>events := events s1 @
           [BoxLoyaltyPointsSynced (box_id box1) nonce (infinity_credits box1)
              sender_addr]\<rparr>))))))"

definition issue_loyalty_ticket ::
  "natives \<Rightarrow> u64 \<Rightarrow> bytes \<Rightarrow> address \<Rightarrow> u64 \<Rightarrow> bytes list \<Rightarrow> bytes list \<Rightarrow> bytes \<Rightarrow>
   Box \<times> frame \<Rightarrow> (Box \<times> frame) outcome" where
  "issue_loyalty_ticket nv nonce name recipient issuing_infinity_credits attribute_keys
       attribute_values signature bs =
     (let box = fst bs; s = snd bs in
     check (assert_version (config s)) (box, s) (\<lambda>_.
     check (assert_nonce (config s) nonce) (box, s) (\<lambda>_.
     if \<not> issuing_infinity_credits \<le> infinity_credits box
     then Aborted ECreditsExceeded (box, s) else
     let sender_addr = sender (ctx s);
         msg = address_to_bytes sender_addr @ bcs_to_bytes nonce @ address_to_bytes recipient
               @ bcs_to_bytes issuing_infinity_credits;
         hashed_msg = keccak256 nv msg in
     check (assert_signature nv (config s) signature hashed_msg) (box, s) (\<lambda>_.
     check (mark_nonce_used (config s) nonce) (box, s) (\<lambda>config1.
     let s1 = s\<lparr>config := config1\<rparr>;
         box1 = box\<lparr>infinity_credits := infinity_credits box - issuing_infinity_credits\<rparr>;
         s2 = s1\<lparr>events := events s1 @
                [BoxLoyaltyPointsUpdated (box_id box1) (infinity_credits box1) sender_addr]\<rparr>;
         (i, ctx1) = object_new nv (ctx s2);
         s3 = s2\<lparr>ctx := ctx1\<rparr> in
     if \<not> check_utf8 nv name then Aborted EInvalidUTF8 (box1, s3) else
     case attributes_from_vec nv attribute_keys attribute_values of
       None \<Rightarrow> Aborted EInvalidAttributes (box1, s3)
     | Some attrs \<Rightarrow>
         let ticket = \<lparr>ticket_id = i, ticket_type = box_type box1, ticket_name = name,
                       ticket_infinity_credits = issuing_infinity_credits,
                       ticket_attributes = attrs\<rparr>;
             s4 = s3\<lparr>events := events s3 @
                    [TicketCreated (ticket_id ticket) (box_id box1) nonce (ticket_type ticket)
                       (ticket_name ticket) (infinity_credits box1) recipient]\<rparr> in
         check (collection_id_by_name nv (config s4) (bytes_of ''loyalty_ticket'')) (box1, s4)
           (\<lambda>collection.
         let s5 = s4\<lparr>events := events s4 @ [MintEvent collection (ticket_id ticket)]\<rparr> in
         Done (box1, s5\<lparr>tickets_sent := tickets_sent s5 @ [(ticket, recipient)]\<rparr>)))))))"

text \<open>
  \<open>mint_event::start_burn\<close> returns a guard holding the ticket's identifier and
  \<open>mint_event::emit_burn\<close> emits the burn event and deletes the identifier.
\<close>

definition apply_loyalty_ticket ::
  "natives \<Rightarrow> Ticket \<Rightarrow> u64 \<Rightarrow> bytes \<Rightarrow> Box \<times> frame \<Rightarrow> (Box \<times> frame) outcome" where
  "apply_loyalty_ticket nv ticket nonce signature bs =
     (let box = fst bs; s = snd bs in
     check (assert_version (config s)) (box, s) (\<lambda>_.
     check (assert_nonce (config s) nonce) (box, s) (\<lambda>_.
     let ticket_guard = ticket_id ticket;
         i = ticket_id ticket;
         ty = ticket_type ticket;
         credits = ticket_infinity_credits ticket in
     if \<not> (box_type box = ty) then Aborted ETicketTypeMisMatch (box, s) else
     let sender_addr = sender (ctx s);
         msg = address_to_bytes sender_addr @ bcs_to_bytes nonce;
         hashed_msg = keccak256 nv msg in
     check (assert_signature nv (config s) signature hashed_msg) (box, s) (\<lambda>_.
     check (mark_nonce_used (config s) nonce) (box, s) (\<lambda>config1.
     let s1 = s\<lparr>config := config1\<rparr> in
     case u64_add (infinity_credits box) credits of
       None \<Rightarrow> Aborted EArithmeticError (box, s1)
     | Some raised \<Rightarrow>
         let box1 = box\<lparr>infinity_credits := raised\<rparr>;
             s2 = s1\<lparr>events := events s1 @
                    [TicketApplied (box_id box1) i nonce credits (sender (ctx s1))]\<rparr> in
         check (collection_id_by_name nv (config s2) (bytes_of ''loyalty_ticket'')) (box1, s2)
           (\<lambda>collection.
         Done (box1, s2\<lparr>events := events s2 @ [BurnEvent collection i],
                        deleted := deleted s2 @ [i]\<rparr>)))))))"

definition use_infinity_credits :: "u64 \<Rightarrow> Box \<Rightarrow> abort + Box" where
  "use_infinity_credits credits box =
     (if \<not> infinity_credits box \<ge> credits then Inl ECreditsExceeded
      else Inr (box\<lparr>infinity_credits := infinity_credits box - credits\<rparr>))"

section \<open>Transactions on the shared \<open>Config\<close>\<close>

text \<open>
  The \<open>Config\<close> is a shared object: every transaction that calls one of the entry
  functions works on the \<open>Config\<close> the transactions before it left. A \<open>call\<close> is one
  entry function with the arguments its caller chose (the transaction context, the
  \<open>Box\<close> and \<open>Ticket\<close> it passes, the capability it holds); \<open>transact\<close> runs it on a
  \<open>Config\<close> and gives the abort, if any, and the \<open>Config\<close> the platform keeps: the one the
  call built when it ran to its end, the old one when it aborted.
\<close>

definition enter :: "Config \<Rightarrow> TxContext \<Rightarrow> frame" where
  "enter c x = \<lparr>config = c, ctx = x, events = [], boxes_sent = [], tickets_sent = [],
     deleted = []\<rparr>"

datatype call =
    Claim_box TxContext u64 u64 bytes u64 "bytes list" "bytes list" bytes
  | Sync TxContext Box u64 u64 bytes
  | Issue_loyalty_ticket TxContext Box u64 bytes address u64 "bytes list" "bytes list" bytes
  | Apply_loyalty_ticket TxContext Box Ticket u64 bytes
  | Set_signer AdminCap bytes
  | Add_collection AdminCap bytes ID
  | Migrate AdminCap
  | Add_used_nonces_table_dof AdminCap

fun settle :: "Config \<Rightarrow> abort + Config \<Rightarrow> abort option \<times> Config" where
  "settle c (Inl e) = (Some e, c)"
| "settle c (Inr c') = (None, c')"

fun transact :: "natives \<Rightarrow> call \<Rightarrow> Config \<Rightarrow> abort option \<times> Config" where
  "transact nv (Claim_box x nonce ty name credits ks vs sg) c =
     (let r = claim_box nv nonce ty name credits ks vs sg (enter c x)
      in (abort_of r, config (commit (enter c x) r)))"
| "transact nv (Sync x box nonce credits sg) c =
     (let r = sync nv nonce credits sg (box, enter c x)
      in (abort_of r, config (snd (commit (box, enter c x) r))))"
| "transact nv (Issue_loyalty_ticket x box nonce name recipient credits ks vs sg) c =
     (let r = issue_loyalty_ticket nv nonce name recipient credits ks vs sg (box, enter c x)
      in (abort_of r, config (snd (commit (box, enter c x) r))))"
| "transact nv (Apply_loyalty_ticket x box ticket nonce sg) c =
     (let r = apply_loyalty_ticket nv ticket nonce sg (box, enter c x)
      in (abort_of r, config (snd (commit (box, enter c x) r))))"
| "transact nv (Set_signer cap new_signer) c = settle c (set_signer cap new_signer c)"
| "transact nv (Add_collection cap name v) c = settle c (add_collection cap name v c)"
| "transact nv (Migrate cap) c = settle c (migrate cap c)"
| "transact nv (Add_used_nonces_table_dof cap) c = settle c (add_used_nonces_table_dof cap c)"

fun run :: "natives \<Rightarrow> call list \<Rightarrow> Config \<Rightarrow> Config" where
  "run nv [] c = c"
| "run nv (x # xs) c = run nv xs (snd (transact nv x c))"

text \<open>The nonce a call of one of the four loyalty operations presents.\<close>

fun call_nonce :: "call \<Rightarrow> u64 option" where
  "call_nonce (Claim_box x nonce ty name credits ks vs sg) = Some nonce"
| "call_nonce (Sync x box nonce credits sg) = Some nonce"
| "call_nonce (Issue_loyalty_ticket x box nonce name recipient credits ks vs sg) = Some nonce"
| "call_nonce (Apply_loyalty_ticket x box ticket nonce sg) = Some nonce"
| "call_nonce _ = None"

subsection \<open>Concrete values for the worked instances\<close>

text \<open>
  Stand-ins for the native functions: a signature is accepted when it is the key
  followed by the message, the hash keeps the message, the \<open>n\<close>-th identifier is \<open>n\<close>,
  ASCII is the accepted UTF-8, and attributes need as many values as keys and no key
  twice. \<open>deaf_natives\<close> accepts no signature at all.
\<close>

definition demo_natives :: natives where
  "demo_natives = \<lparr>ed25519_verify = (\<lambda>sg pk m. sg = pk @ m), keccak256 = (\<lambda>m. m),
     derive_id = (\<lambda>h n. of_nat n), check_utf8 = list_all (\<lambda>b. b < 128),
     attributes_from_vec =
       (\<lambda>ks vs. if length ks = length vs \<and> distinct ks then Some (zip ks vs) else None)\<rparr>"

definition deaf_natives :: natives where
  "deaf_natives = demo_natives\<lparr>ed25519_verify := (\<lambda>sg pk m. False)\<rparr>"

definition demo_config :: Config where
  "demo_config = \<lparr>config_id = 1, version = 2, admin = 9, signer = [7],
     used_nonces = [], collections = [(bytes_of ''loyalty_ticket'', 5)],
     used_nonces_dof = Some Map.empty\<rparr>"

definition demo_ctx :: TxContext where
  "demo_ctx = \<lparr>sender = 3, tx_hash = [], ids_created = 0\<rparr>"

definition demo_box :: Box where
  "demo_box = \<lparr>box_id = 11, box_type = 1, box_name = [], infinity_credits = 100,
     box_attributes = []\<rparr>"

definition demo_sync_sig :: bytes where
  "demo_sync_sig = [7] @ address_to_bytes 3 @ bcs_to_bytes 4 @ bcs_to_bytes 50"

definition demo_first :: call where
  "demo_first = Sync demo_ctx demo_box 4 50 demo_sync_sig"

definition demo_between :: "call list" where
  "demo_between = [Set_signer \<lparr>cap_id = 9\<rparr> [8], Add_collection \<lparr>cap_id = 9\<rparr> [1] 6,
     Migrate \<lparr>cap_id = 9\<rparr>, Add_used_nonces_table_dof \<lparr>cap_id = 9\<rparr>]"

definition demo_later :: call where
  "demo_later = Claim_box (demo_ctx\<lparr>sender := 8\<rparr>) 4 2 [] 7 [] [] []"

definition demo_claim_sig :: bytes where
  "demo_claim_sig = [7] @ address_to_bytes 3 @ bcs_to_bytes 4 @ bcs_to_bytes 1 @ bcs_to_bytes 50"

definition demo_frame :: frame where
  "demo_frame = enter demo_config demo_ctx"

definition old_frame :: frame where
  "old_frame = enter (demo_config\<lparr>version := 1, used_nonces_dof := None\<rparr>) demo_ctx"

definition used_frame :: frame where
  "used_frame = enter (demo_config\<lparr>used_nonces_dof := Some [4 \<mapsto> True]\<rparr>) demo_ctx"

definition demo_ticket :: Ticket where
  "demo_ticket = \<lparr>ticket_id = 0, ticket_type = 1, ticket_name = [],
     ticket_infinity_credits = 30, ticket_attributes = []\<rparr>"

definition demo_issue_sig :: bytes where
  "demo_issue_sig =
     [7] @ address_to_bytes 3 @ bcs_to_bytes 5 @ address_to_bytes 8 @ bcs_to_bytes 30"

definition demo_apply_sig :: bytes where
  "demo_apply_sig = [7] @ address_to_bytes 8 @ bcs_to_bytes 6"

section \<open>The contract \<open>BeyondLand\<close>\<close>

text \<open>
  The repository's files hold the test suite of the EVM contract \<open>BeyondLand\<close>
  (\<open>test/BeyondLand.ts\<close>) but not its Solidity source. The definitions of this section
  are written from the specification's sections 3 and 4, with the names the test suite
  calls the contract by where it has one; the scenarios of the test suite are replayed
  on them below. Amounts, prices and times are \<open>uint256\<close> in the contract and natural
  numbers here.
\<close>

text \<open>
  Modelled from the spec: the errors of \<open>BeyondLand\<close>, whose source is missing, are the
  taxonomy of section 7; \<open>ZeroAmount\<close> is added for the mint of no land, which the test
  suite expects to be refused and the spec does not name. A request is on the claim
  path or on the public path (glossary), and an issuance emits one event (section 4.5,
  step 6).
\<close>

datatype land_error =
    NotStarted
  | InvalidSignature
  | AlreadyUsed
  | CeilingExceeded
  | ClaimSupplyExceeded
  | PublicSupplyExceeded
  | PerAddressLimitExceeded
  | IncorrectPayment
  | Unauthorized
  | ZeroAmount

datatype path = ClaimPath | PublicPath

datatype land_event = Issued path address nat "nat list"

text \<open>
  Modelled from the spec: the state of \<open>BeyondLand\<close>, whose source is missing. Section 3:
  the trusted signer and the admin (TrustConfig), \<open>maxClaimable\<close> and \<open>maxPublic\<close>
  (SupplyCaps), \<open>claimedCount\<close> and \<open>publicMintedCount\<close> (IssuanceCounters), \<open>allocation\<close>
  (PerAddressAllocation) and the owner of every entity; section 4.5: the claim switch,
  the public time window, the unit price and the public cap per address, with the
  cumulative public mints of every address.
\<close>

record land =
  admin_addr :: address
  trusted_signer :: address
  claimActive :: bool
  startTime :: nat
  endTime :: nat
  maxClaimable :: nat
  maxPublic :: nat
  unitPrice :: nat
  perAddressCap :: nat
  claimedCount :: nat
  publicMintedCount :: nat
  allocation :: "address \<Rightarrow> nat"
  publicMinted :: "address \<Rightarrow> nat"
  entities :: "(nat \<times> address) list"
  land_events :: "land_event list"

text \<open>
  Modelled from the spec: the derived cap of section 3,
  \<open>maxTotal = maxClaimable + maxPublic\<close>, computed from the live caps.
\<close>

definition maxTotal :: "land \<Rightarrow> nat" where
  "maxTotal s = maxClaimable s + maxPublic s"

text \<open>
  Modelled from the spec: the Signature Verifier of section 4.1,
  \<open>verify(signerPubKey, message, signature)\<close>, a parameter; the message of a claim is the
  caller's address and the declared ceiling.
\<close>

type_synonym verifier = "address \<Rightarrow> address \<times> nat \<Rightarrow> bytes \<Rightarrow> bool"

text \<open>
  Modelled from the spec: \<open>reserve\<close> of the Allocation Ledger, section 4.3: it fails
  with \<open>CeilingExceeded\<close> if \<open>currentConsumed(address) + requestedAmount > signedCeiling\<close>
  and otherwise increments the consumed amount and returns the count before.
\<close>

definition reserve :: "address \<Rightarrow> nat \<Rightarrow> nat \<Rightarrow> land \<Rightarrow> land_error + nat \<times> land" where
  "reserve a requestedAmount signedCeiling s =
     (if allocation s a + requestedAmount > signedCeiling then Inl CeilingExceeded
      else Inr (allocation s a,
                s\<lparr>allocation := (allocation s)(a := allocation s a + requestedAmount)\<rparr>))"

text \<open>
  Modelled from the spec: \<open>reserveClaim\<close> and \<open>reservePublic\<close> of the Supply Accountant,
  section 4.4: each fails when its counter would pass its cap, and, the two taken
  together, when the sum of the counters would pass \<open>maxTotal\<close>, recomputed at the check.
\<close>

definition reserveClaim :: "nat \<Rightarrow> land \<Rightarrow> land_error + land" where
  "reserveClaim amount s =
     (if claimedCount s + amount > maxClaimable s then Inl ClaimSupplyExceeded
      else if claimedCount s + publicMintedCount s + amount > maxTotal s
      then Inl ClaimSupplyExceeded
      else Inr (s\<lparr>claimedCount := claimedCount s + amount\<rparr>))"

definition reservePublic :: "nat \<Rightarrow> land \<Rightarrow> land_error + land" where
  "reservePublic amount s =
     (if publicMintedCount s + amount > maxPublic s then Inl PublicSupplyExceeded
      else if claimedCount s + publicMintedCount s + amount > maxTotal s
      then Inl PublicSupplyExceeded
      else Inr (s\<lparr>publicMintedCount := publicMintedCount s + amount\<rparr>))"

text \<open>
  Modelled from the spec: the issuance of section 4.5, step 6: \<open>amount\<close> sequential
  identifiers starting at the current global count plus one, one entity each, owned by
  the caller, and an event with the path, the amount and the identifiers. \<open>count\<close> is
  the global count before the request.
\<close>

definition issue :: "path \<Rightarrow> address \<Rightarrow> nat \<Rightarrow> nat \<Rightarrow> land \<Rightarrow> land" where
  "issue p caller amount count s =
     (let ids = [count + 1 ..< count + 1 + amount] in
      s\<lparr>entities := entities s @ map (\<lambda>i. (i, caller)) ids,
        land_events := land_events s @ [Issued p caller amount ids]\<rparr>)"

text \<open>
  Modelled from the spec: the claim path of the orchestrator, section 4.5: the claim
  switch, the signature over the caller and the declared ceiling, the ledger
  reservation, the supply reservation, the issuance. The test suite calls it
  \<open>claimLands(amount, maxLands, signature)\<close>.
\<close>

definition claimLands ::
  "verifier \<Rightarrow> address \<Rightarrow> nat \<Rightarrow> nat \<Rightarrow> bytes \<Rightarrow> land \<Rightarrow> land_error + land" where
  "claimLands vf caller amount ceiling sg s =
     (if \<not> claimActive s then Inl NotStarted
      else if \<not> vf (trusted_signer s) (caller, ceiling) sg then Inl InvalidSignature
      else case reserve caller amount ceiling s of
        Inl e \<Rightarrow> Inl e
      | Inr (previous, s1) \<Rightarrow>
          (case reserveClaim amount s1 of
             Inl e \<Rightarrow> Inl e
           | Inr s2 \<Rightarrow>
               Inr (issue ClaimPath caller amount (claimedCount s + publicMintedCount s) s2)))"

text \<open>
  Modelled from the spec: the public path, section 4.5: the time window, the supply
  reservation, the cap per address, the exact payment, the issuance. The test suite
  calls it \<open>mintLands(amount)\<close> with the payment attached, and expects a mint of no
  land to be refused; the spec names no error for that, \<open>ZeroAmount\<close> stands for it.
\<close>

definition mintLands ::
  "nat \<Rightarrow> address \<Rightarrow> nat \<Rightarrow> nat \<Rightarrow> land \<Rightarrow> land_error + land" where
  "mintLands now caller amount payment s =
     (if \<not> (startTime s \<le> now \<and> now < endTime s) then Inl NotStarted
      else case reservePublic amount s of
        Inl e \<Rightarrow> Inl e
      | Inr s1 \<Rightarrow>
          (if publicMinted s1 caller + amount > perAddressCap s1
           then Inl PerAddressLimitExceeded
           else if payment \<noteq> unitPrice s1 * amount then Inl IncorrectPayment
           else if amount = 0 then Inl ZeroAmount
           else Inr (issue PublicPath caller amount (claimedCount s + publicMintedCount s)
                  (s1\<lparr>publicMinted :=
                        (publicMinted s1)(caller := publicMinted s1 caller + amount)\<rparr>))))"

text \<open>
  Modelled from the spec: the administrative operations of section 4.5, admin-only
  (\<open>Unauthorized\<close> otherwise), unrestricted in value, effective at once.
\<close>

definition setSupply :: "address \<Rightarrow> nat \<Rightarrow> nat \<Rightarrow> land \<Rightarrow> land_error + land" where
  "setSupply caller c p s =
     (if caller \<noteq> admin_addr s then Inl Unauthorized
      else Inr (s\<lparr>maxClaimable := c, maxPublic := p\<rparr>))"

definition setClaimableActive :: "address \<Rightarrow> bool \<Rightarrow> land \<Rightarrow> land_error + land" where
  "setClaimableActive caller b s =
     (if caller \<noteq> admin_addr s then Inl Unauthorized else Inr (s\<lparr>claimActive := b\<rparr>))"

definition setMintStartTime :: "address \<Rightarrow> nat \<Rightarrow> nat \<Rightarrow> land \<Rightarrow> land_error + land" where
  "setMintStartTime caller t0 t1 s =
     (if caller \<noteq> admin_addr s then Inl Unauthorized
      else Inr (s\<lparr>startTime := t0, endTime := t1\<rparr>))"

definition setSigner :: "address \<Rightarrow> address \<Rightarrow> land \<Rightarrow> land_error + land" where
  "setSigner caller k s =
     (if caller \<noteq> admin_addr s then Inl Unauthorized else Inr (s\<lparr>trusted_signer := k\<rparr>))"

definition setMaxMintPerAddress :: "address \<Rightarrow> nat \<Rightarrow> land \<Rightarrow> land_error + land" where
  "setMaxMintPerAddress caller n s =
     (if caller \<noteq> admin_addr s then Inl Unauthorized else Inr (s\<lparr>perAddressCap := n\<rparr>))"

definition setMintPrice :: "address \<Rightarrow> nat \<Rightarrow> land \<Rightarrow> land_error + land" where
  "setMintPrice caller n s =
     (if caller \<noteq> admin_addr s then Inl Unauthorized else Inr (s\<lparr>unitPrice := n\<rparr>))"

text \<open>
  Modelled from the spec: the requests the contract serves, those of section 4.5 under
  the names the test suite calls them by; a public mint carries the time of its block.
\<close>

datatype request =
    ClaimLands address nat nat bytes
  | MintLands nat address nat nat
  | SetSupply address nat nat
  | SetClaimableActive address bool
  | SetMintStartTime address nat nat
  | SetSigner address address
  | SetMaxMintPerAddress address nat
  | SetMintPrice address nat

fun handle :: "verifier \<Rightarrow> request \<Rightarrow> land \<Rightarrow> land_error + land" where
  "handle vf (ClaimLands caller amount ceiling sg) s = claimLands vf caller amount ceiling sg s"
| "handle vf (MintLands now caller amount payment) s = mintLands now caller amount payment s"
| "handle vf (SetSupply caller c p) s = setSupply caller c p s"
| "handle vf (SetClaimableActive caller b) s = setClaimableActive caller b s"
| "handle vf (SetMintStartTime caller t0 t1) s = setMintStartTime caller t0 t1 s"
| "handle vf (SetSigner caller k) s = setSigner caller k s"
| "handle vf (SetMaxMintPerAddress caller n) s = setMaxMintPerAddress caller n s"
| "handle vf (SetMintPrice caller n) s = setMintPrice caller n s"

text \<open>
  Modelled from the spec: the state a request leaves, section 5: a request either
  completes or aborts with no state change, and the requests are served one at a time.
\<close>

definition after :: "verifier \<Rightarrow> request \<Rightarrow> land \<Rightarrow> land" where
  "after vf r s = (case handle vf r s of Inl e \<Rightarrow> s | Inr s' \<Rightarrow> s')"

fun serve :: "verifier \<Rightarrow> request list \<Rightarrow> land \<Rightarrow> land" where
  "serve vf [] s = s"
| "serve vf (r # rs) s = serve vf rs (after vf r s)"

text \<open>
  The sum of the amounts the ledger has reserved for the address \<open>a\<close> in the course of
  the requests \<open>rs\<close>, served one after the other from the state \<open>s\<close>.
\<close>

fun reserved :: "verifier \<Rightarrow> address \<Rightarrow> request list \<Rightarrow> land \<Rightarrow> nat" where
  "reserved vf a [] s = 0"
| "reserved vf a (ClaimLands caller amount ceiling sg # rs) s =
     (if caller = a \<and> \<not> isl (claimLands vf caller amount ceiling sg s) then amount else 0)
     + reserved vf a rs (after vf (ClaimLands caller amount ceiling sg) s)"
| "reserved vf a (r # rs) s = reserved vf a rs (after vf r s)"

text \<open>\<open>against a c r\<close>: the request \<open>r\<close>, if it is a claim of \<open>a\<close>, declares the ceiling \<open>c\<close>.\<close>

fun against :: "address \<Rightarrow> nat \<Rightarrow> request \<Rightarrow> bool" where
  "against a c (ClaimLands caller amount ceiling sg) = (caller = a \<longrightarrow> ceiling = c)"
| "against a c _ = True"

text \<open>
  \<open>keeps_caps r s\<close>: the request \<open>r\<close>, if it is the admin's and sets the caps, leaves
  their sum at or above what has been issued in \<open>s\<close>.
\<close>

fun keeps_caps :: "request \<Rightarrow> land \<Rightarrow> bool" where
  "keeps_caps (SetSupply caller c p) s =
     (caller = admin_addr s \<longrightarrow> claimedCount s + publicMintedCount s \<le> c + p)"
| "keeps_caps _ s = True"

fun all_keep_caps :: "verifier \<Rightarrow> request list \<Rightarrow> land \<Rightarrow> bool" where
  "all_keep_caps vf [] s = True"
| "all_keep_caps vf (r # rs) s = (keeps_caps r s \<and> all_keep_caps vf rs (after vf r s))"

text \<open>
  A stand-in for the verifier: the signature of the signer \<open>k\<close> on a message is the
  bytes of \<open>k\<close>, of the caller and of the ceiling. The contract as the test suite sets it
  up (\<open>setSupply(1500, 5000)\<close>, four public lands per address), and as its end-to-end
  test does (\<open>setSupply(318, 9)\<close>); the admin is address 1, the signer address 2.
\<close>

definition sign :: "address \<Rightarrow> address \<Rightarrow> nat \<Rightarrow> bytes" where
  "sign k caller ceiling =
     address_to_bytes k @ address_to_bytes caller @ bcs_to_bytes (of_nat ceiling)"

definition demo_verify :: verifier where
  "demo_verify k m sg = (sg = sign k (fst m) (snd m))"

definition deployed :: land where
  "deployed = \<lparr>admin_addr = 1, trusted_signer = 2, claimActive = True, startTime = 1000,
     endTime = 1090, maxClaimable = 1500, maxPublic = 5000, unitPrice = 50,
     perAddressCap = 4, claimedCount = 0, publicMintedCount = 0, allocation = (\<lambda>a. 0),
     publicMinted = (\<lambda>a. 0), entities = [], land_events = []\<rparr>"

definition e2e :: land where
  "e2e = deployed\<lparr>maxClaimable := 318, maxPublic := 9\<rparr>"

text \<open>
  What each request of a list comes to, served one after the other: \<open>None\<close> for a
  request that completes, the error of one that is refused.
\<close>

fun outcomes :: "verifier \<Rightarrow> request list \<Rightarrow> land \<Rightarrow> land_error option list" where
  "outcomes vf [] s = []"
| "outcomes vf (r # rs) s =
     (case handle vf r s of Inl e \<Rightarrow> Some e | Inr s' \<Rightarrow> None) # outcomes vf rs (after vf r s)"

text \<open>
  Requests of the test suite and of the spec's scenarios: the claims of
  \<open>claimableMinter5\<close> in the end-to-end test (1 under ceiling 1, 3 and then 2 and then 1
  under ceiling 3), the buyer of section 8 (1 and 1 under ceiling 4), the public round
  of the end-to-end test, a cap change below the current issuance, and cap changes that
  stay above it.
\<close>

definition minter5 :: "request list" where
  "minter5 = [ClaimLands 5 1 1 (sign 2 5 1), ClaimLands 5 3 3 (sign 2 5 3),
     ClaimLands 5 2 3 (sign 2 5 3), ClaimLands 5 1 3 (sign 2 5 3)]"

definition buyer_b :: "request list" where
  "buyer_b = [ClaimLands 6 1 4 (sign 2 6 4), ClaimLands 6 1 4 (sign 2 6 4)]"

definition public_round :: "request list" where
  "public_round = [MintLands 1000 11 4 200, MintLands 1000 11 1 50, MintLands 1001 12 3 150,
     MintLands 1002 14 3 150, MintLands 1002 14 2 100, MintLands 1003 13 1 50,
     MintLands 1091 12 9 450]"

definition narrowing :: "request list" where
  "narrowing = [ClaimLands 5 1 1 (sign 2 5 1), SetSupply 1 0 0]"

definition widening :: "request list" where
  "widening = [ClaimLands 5 1 1 (sign 2 5 1), MintLands 1000 11 4 200, SetSupply 1 1 4,
     MintLands 1000 12 1 50, SetSupply 7 0 0]"

section \<open>Facts about the entry functions\<close>

text \<open>
  \<open>marks n c c'\<close>: \<open>c'\<close> is \<open>c\<close> with the nonce \<open>n\<close>, unused in \<open>c\<close>, added to the table, and
  \<open>c\<close> has the current version. \<open>marked n c\<close>: \<open>c\<close> has the current version and its table
  holds \<open>n\<close>.
\<close>

definition marks :: "u64 \<Rightarrow> Config \<Rightarrow> Config \<Rightarrow> bool" where
  "marks n c c' = (version c = VERSION \<and>
     (\<exists>t. used_nonces_dof c = Some t \<and> n \<notin> dom t \<and>
          c' = c\<lparr>used_nonces_dof := Some (t(n \<mapsto> True))\<rparr>))"

definition marked :: "u64 \<Rightarrow> Config \<Rightarrow> bool" where
  "marked n c = (version c = VERSION \<and>
     (case used_nonces_dof c of None \<Rightarrow> False | Some t \<Rightarrow> n \<in> dom t))"

lemma check_simps:
  "check (Inl e) s k = Aborted e s"
  "check (Inr a) s k = k a"
  by (simp_all add: check_def)

lemmas guard_defs = assert_version_def assert_nonce_def nonce_used_def assert_signature_def
  mark_nonce_used_def

lemmas demo_defs = demo_natives_def deaf_natives_def demo_config_def demo_ctx_def demo_box_def
  enter_def VERSION_def

lemma loyalty_ticket_ascii: "list_all (\<lambda>b. b < 128) (bytes_of ''loyalty_ticket'')"
  by (simp add: bytes_of_def)

subsection \<open>The version gate comes first\<close>

lemma claim_box_wrong_version:
  "version (config s) \<noteq> VERSION \<Longrightarrow>
   claim_box nv nonce ty name credits ks vs sg s = Aborted EWrongVersion s"
  by (simp add: claim_box_def assert_version_def check_simps)

lemma sync_wrong_version:
  "version (config s) \<noteq> VERSION \<Longrightarrow>
   sync nv nonce credits sg (box, s) = Aborted EWrongVersion (box, s)"
  by (simp add: sync_def assert_version_def check_simps)

lemma issue_wrong_version:
  "version (config s) \<noteq> VERSION \<Longrightarrow>
   issue_loyalty_ticket nv nonce name recipient credits ks vs sg (box, s)
     = Aborted EWrongVersion (box, s)"
  by (simp add: issue_loyalty_ticket_def assert_version_def check_simps)

lemma apply_wrong_version:
  "version (config s) \<noteq> VERSION \<Longrightarrow>
   apply_loyalty_ticket nv ticket nonce sg (box, s) = Aborted EWrongVersion (box, s)"
  by (simp add: apply_loyalty_ticket_def assert_version_def check_simps)

subsection \<open>A used nonce is refused before anything else is looked at\<close>

lemma claim_box_used:
  "version (config s) = VERSION \<Longrightarrow> used_nonces_dof (config s) = Some t \<Longrightarrow> nonce \<in> dom t \<Longrightarrow>
   claim_box nv nonce ty name credits ks vs sg s = Aborted ENonceAlreadyUsed s"
  by (simp add: claim_box_def assert_version_def assert_nonce_def nonce_used_def check_simps)

lemma sync_used:
  "version (config s) = VERSION \<Longrightarrow> used_nonces_dof (config s) = Some t \<Longrightarrow> nonce \<in> dom t \<Longrightarrow>
   sync nv nonce credits sg (box, s) = Aborted ENonceAlreadyUsed (box, s)"
  by (simp add: sync_def assert_version_def assert_nonce_def nonce_used_def check_simps)

lemma issue_used:
  "version (config s) = VERSION \<Longrightarrow> used_nonces_dof (config s) = Some t \<Longrightarrow> nonce \<in> dom t \<Longrightarrow>
   issue_loyalty_ticket nv nonce name recipient credits ks vs sg (box, s)
     = Aborted ENonceAlreadyUsed (box, s)"
  by (simp add: issue_loyalty_ticket_def assert_version_def assert_nonce_def nonce_used_def
      check_simps)

lemma apply_used:
  "version (config s) = VERSION \<Longrightarrow> used_nonces_dof (config s) = Some t \<Longrightarrow> nonce \<in> dom t \<Longrightarrow>
   apply_loyalty_ticket nv ticket nonce sg (box, s) = Aborted ENonceAlreadyUsed (box, s)"
  by (simp add: apply_loyalty_ticket_def assert_version_def assert_nonce_def nonce_used_def
      check_simps)

subsection \<open>A call that runs to its end has marked its nonce\<close>

lemma claim_box_Done:
  "claim_box nv nonce ty name credits ks vs sg s = Done s' \<Longrightarrow> marks nonce (config s) (config s')"
  by (auto simp add: claim_box_def guard_defs check_def marks_def Let_def object_new_def
      split: if_splits option.splits sum.splits prod.splits)

lemma sync_Done:
  "sync nv nonce credits sg (box, s) = Done (box', s') \<Longrightarrow> marks nonce (config s) (config s')"
  by (auto simp add: sync_def guard_defs check_def marks_def Let_def
      split: if_splits option.splits sum.splits prod.splits)

lemma issue_Done:
  "issue_loyalty_ticket nv nonce name recipient credits ks vs sg (box, s) = Done (box', s') \<Longrightarrow>
   marks nonce (config s) (config s')"
  by (auto simp add: issue_loyalty_ticket_def guard_defs check_def marks_def Let_def object_new_def
      collection_id_by_name_def
      split: if_splits option.splits sum.splits prod.splits)

lemma apply_Done:
  "apply_loyalty_ticket nv ticket nonce sg (box, s) = Done (box', s') \<Longrightarrow>
   marks nonce (config s) (config s')"
  by (auto simp add: apply_loyalty_ticket_def guard_defs check_def marks_def Let_def
      collection_id_by_name_def
      split: if_splits option.splits sum.splits prod.splits)

subsection \<open>A marked nonce stays marked\<close>

lemma marks_marked: "marks n c c' \<Longrightarrow> marked n c'"
  by (auto simp: marks_def marked_def)

lemma marks_keeps: "marks m c c' \<Longrightarrow> marked n c \<Longrightarrow> marked n c'"
  by (auto simp: marks_def marked_def)

lemma success_marks:
  assumes "call_nonce x = Some n" and "fst (transact nv x c) = None"
  shows "marked n (snd (transact nv x c))"
proof (cases x)
  case (Claim_box x1 nonce ty name credits ks vs sg)
  with assms obtain s' where "claim_box nv n ty name credits ks vs sg (enter c x1) = Done s'"
    by (cases "claim_box nv n ty name credits ks vs sg (enter c x1)") auto
  with Claim_box assms show ?thesis
    using claim_box_Done [of nv n ty name credits ks vs sg "enter c x1" s']
    by (simp add: marks_marked enter_def)
next
  case (Sync x1 box nonce credits sg)
  with assms obtain b' s' where "sync nv n credits sg (box, enter c x1) = Done (b', s')"
    by (cases "sync nv n credits sg (box, enter c x1)") auto
  with Sync assms show ?thesis
    using sync_Done [of nv n credits sg box "enter c x1" b' s']
    by (simp add: marks_marked enter_def)
next
  case (Issue_loyalty_ticket x1 box nonce name r credits ks vs sg)
  with assms obtain b' s' where
    "issue_loyalty_ticket nv n name r credits ks vs sg (box, enter c x1) = Done (b', s')"
    by (cases "issue_loyalty_ticket nv n name r credits ks vs sg (box, enter c x1)") auto
  with Issue_loyalty_ticket assms show ?thesis
    using issue_Done [of nv n name r credits ks vs sg box "enter c x1" b' s']
    by (simp add: marks_marked enter_def)
next
  case (Apply_loyalty_ticket x1 box t nonce sg)
  with assms obtain b' s' where
    "apply_loyalty_ticket nv t n sg (box, enter c x1) = Done (b', s')"
    by (cases "apply_loyalty_ticket nv t n sg (box, enter c x1)") auto
  with Apply_loyalty_ticket assms show ?thesis
    using apply_Done [of nv t n sg box "enter c x1" b' s']
    by (simp add: marks_marked enter_def)
qed (use assms in simp_all)

lemma transact_marked:
  assumes "marked n c"
  shows "marked n (snd (transact nv x c))"
proof (cases x)
  case (Claim_box x1 nonce ty name credits ks vs sg)
  show ?thesis
  proof (cases "claim_box nv nonce ty name credits ks vs sg (enter c x1)")
    case (Done s')
    with Claim_box assms show ?thesis
      using claim_box_Done [of nv nonce ty name credits ks vs sg "enter c x1" s']
      by (simp add: enter_def marks_keeps)
  next
    case (Aborted e s')
    with Claim_box assms show ?thesis by (simp add: enter_def)
  qed
next
  case (Sync x1 box nonce credits sg)
  show ?thesis
  proof (cases "sync nv nonce credits sg (box, enter c x1)")
    case (Done bs')
    with Sync assms show ?thesis
      using sync_Done [of nv nonce credits sg box "enter c x1" "fst bs'" "snd bs'"]
      by (simp add: enter_def marks_keeps)
  next
    case (Aborted e s')
    with Sync assms show ?thesis by (simp add: enter_def)
  qed
next
  case (Issue_loyalty_ticket x1 box nonce name r credits ks vs sg)
  show ?thesis
  proof (cases "issue_loyalty_ticket nv nonce name r credits ks vs sg (box, enter c x1)")
    case (Done bs')
    with Issue_loyalty_ticket assms show ?thesis
      using issue_Done [of nv nonce name r credits ks vs sg box "enter c x1" "fst bs'" "snd bs'"]
      by (simp add: enter_def marks_keeps)
  next
    case (Aborted e s')
    with Issue_loyalty_ticket assms show ?thesis by (simp add: enter_def)
  qed
next
  case (Apply_loyalty_ticket x1 box t nonce sg)
  show ?thesis
  proof (cases "apply_loyalty_ticket nv t nonce sg (box, enter c x1)")
    case (Done bs')
    with Apply_loyalty_ticket assms show ?thesis
      using apply_Done [of nv t nonce sg box "enter c x1" "fst bs'" "snd bs'"]
      by (simp add: enter_def marks_keeps)
  next
    case (Aborted e s')
    with Apply_loyalty_ticket assms show ?thesis by (simp add: enter_def)
  qed
next
  case (Set_signer cap sg)
  with assms show ?thesis by (simp add: set_signer_def marked_def)
next
  case (Add_collection cap name v)
  with assms show ?thesis
    by (simp add: add_collection_def add_collection_internal_def marked_def)
next
  case (Migrate cap)
  with assms show ?thesis by (simp add: migrate_def marked_def)
next
  case (Add_used_nonces_table_dof cap)
  with assms show ?thesis
    by (auto simp add: add_used_nonces_table_dof_def marked_def split: option.splits)
qed

lemma run_marked: "marked n c \<Longrightarrow> marked n (run nv xs c)"
  by (induction xs arbitrary: c) (simp_all add: transact_marked)

lemma marked_rejects:
  assumes "marked n c" and "call_nonce x = Some n"
  shows "transact nv x c = (Some ENonceAlreadyUsed, c)"
proof -
  from assms(1) obtain t where v: "version c = VERSION" and t: "used_nonces_dof c = Some t"
    and n: "n \<in> dom t"
    by (auto simp: marked_def split: option.splits)
  show ?thesis
  proof (cases x)
    case (Claim_box x1 nonce ty name credits ks vs sg)
    with assms(2) v t n show ?thesis
      using claim_box_used [of "enter c x1" t n nv ty name credits ks vs sg]
      by (simp add: enter_def)
  next
    case (Sync x1 box nonce credits sg)
    with assms(2) v t n show ?thesis
      using sync_used [of "enter c x1" t n nv credits sg box]
      by (simp add: enter_def)
  next
    case (Issue_loyalty_ticket x1 box nonce name r credits ks vs sg)
    with assms(2) v t n show ?thesis
      using issue_used [of "enter c x1" t n nv name r credits ks vs sg box]
      by (simp add: enter_def)
  next
    case (Apply_loyalty_ticket x1 box tk nonce sg)
    with assms(2) v t n show ?thesis
      using apply_used [of "enter c x1" t n nv tk sg box]
      by (simp add: enter_def)
  qed (use assms(2) in simp_all)
qed

subsection \<open>The signature is checked after the nonce\<close>

lemma claim_box_bad_sig:
  "version (config s) = VERSION \<Longrightarrow> nonce_used (config s) nonce = Inr False \<Longrightarrow>
   \<not> signature_valid nv (config s) sg (keccak256 nv (address_to_bytes (sender (ctx s))
        @ bcs_to_bytes nonce @ bcs_to_bytes ty @ bcs_to_bytes credits)) \<Longrightarrow>
   claim_box nv nonce ty name credits ks vs sg s = Aborted EInvalidSignature s"
  by (simp add: claim_box_def assert_version_def assert_nonce_def assert_signature_def
      check_simps)

lemma sync_bad_sig:
  "version (config s) = VERSION \<Longrightarrow> nonce_used (config s) nonce = Inr False \<Longrightarrow>
   \<not> signature_valid nv (config s) sg (keccak256 nv (address_to_bytes (sender (ctx s))
        @ bcs_to_bytes nonce @ bcs_to_bytes credits)) \<Longrightarrow>
   sync nv nonce credits sg (box, s) = Aborted EInvalidSignature (box, s)"
  by (simp add: sync_def assert_version_def assert_nonce_def assert_signature_def
      check_simps)

lemma nonce_used_True:
  "nonce_used c n = Inr True \<Longrightarrow> \<exists>t. used_nonces_dof c = Some t \<and> n \<in> dom t"
  by (auto simp: nonce_used_def split: option.splits)

lemma marks_used: "marks n c c' \<Longrightarrow> nonce_used c' n = Inr True"
  by (auto simp: marks_def nonce_used_def)

lemma claim_box_Done_checks:
  assumes "claim_box nv nonce ty name credits ks vs sg s = Done s'"
  shows "version (config s) = VERSION \<and> nonce_used (config s) nonce = Inr False
   \<and> signature_valid nv (config s) sg (keccak256 nv (address_to_bytes (sender (ctx s))
        @ bcs_to_bytes nonce @ bcs_to_bytes ty @ bcs_to_bytes credits))
   \<and> nonce_used (config s') nonce = Inr True"
proof -
  have "nonce_used (config s') nonce = Inr True"
    using claim_box_Done [OF assms] by (rule marks_used)
  moreover have "version (config s) = VERSION \<and> nonce_used (config s) nonce = Inr False
   \<and> signature_valid nv (config s) sg (keccak256 nv (address_to_bytes (sender (ctx s))
        @ bcs_to_bytes nonce @ bcs_to_bytes ty @ bcs_to_bytes credits))"
    using assms
    by (auto simp add: claim_box_def assert_version_def assert_nonce_def assert_signature_def
        check_def Let_def split: if_splits sum.splits)
  ultimately show ?thesis by simp
qed

lemma sync_Done_checks:
  assumes "sync nv nonce credits sg (box, s) = Done bs'"
  shows "version (config s) = VERSION \<and> nonce_used (config s) nonce = Inr False
   \<and> signature_valid nv (config s) sg (keccak256 nv (address_to_bytes (sender (ctx s))
        @ bcs_to_bytes nonce @ bcs_to_bytes credits))
   \<and> nonce_used (config (snd bs')) nonce = Inr True"
proof -
  have "nonce_used (config (snd bs')) nonce = Inr True"
    using sync_Done [of nv nonce credits sg box s "fst bs'" "snd bs'"] assms
    by (simp add: marks_used)
  moreover have "version (config s) = VERSION \<and> nonce_used (config s) nonce = Inr False
   \<and> signature_valid nv (config s) sg (keccak256 nv (address_to_bytes (sender (ctx s))
        @ bcs_to_bytes nonce @ bcs_to_bytes credits))"
    using assms
    by (auto simp add: sync_def assert_version_def assert_nonce_def assert_signature_def
        check_def Let_def split: if_splits sum.splits)
  ultimately show ?thesis by simp
qed

subsection \<open>The assertions of the two modules come before every mutation\<close>

lemma own_abort_cases:
  "abort_module e \<noteq> Framework \<Longrightarrow>
   e \<in> {ENotAdmin, ENotUpgrade, EWrongVersion, ENonceAlreadyUsed, EInvalidSignature,
     ETicketTypeMisMatch, ECreditsExceeded}"
  by (cases e) simp_all

lemma claim_box_own_abort:
  "claim_box nv nonce ty name credits ks vs sg s = Aborted e s' \<Longrightarrow>
   abort_module e \<noteq> Framework \<or> e = EFieldDoesNotExist \<Longrightarrow> s' = s"
  by (auto simp add: claim_box_def guard_defs check_def Let_def object_new_def
      split: if_splits option.splits sum.splits prod.splits)

lemma sync_own_abort:
  "sync nv nonce credits sg (box, s) = Aborted e bs' \<Longrightarrow>
   abort_module e \<noteq> Framework \<or> e = EFieldDoesNotExist \<Longrightarrow> bs' = (box, s)"
  by (auto simp add: sync_def guard_defs check_def Let_def
      split: if_splits option.splits sum.splits prod.splits)

lemma issue_own_abort:
  "issue_loyalty_ticket nv nonce name recipient credits ks vs sg (box, s) = Aborted e bs' \<Longrightarrow>
   abort_module e \<noteq> Framework \<or> e = EFieldDoesNotExist \<Longrightarrow> bs' = (box, s)"
  by (auto simp add: issue_loyalty_ticket_def guard_defs check_def Let_def object_new_def
      collection_id_by_name_def
      split: if_splits option.splits sum.splits prod.splits)

lemma apply_own_abort:
  "apply_loyalty_ticket nv ticket nonce sg (box, s) = Aborted e bs' \<Longrightarrow>
   abort_module e \<noteq> Framework \<or> e = EFieldDoesNotExist \<Longrightarrow> bs' = (box, s)"
  by (auto simp add: apply_loyalty_ticket_def guard_defs check_def Let_def
      collection_id_by_name_def
      split: if_splits option.splits sum.splits prod.splits)

subsection \<open>What a ticket takes from a box and gives to a box\<close>

lemma issue_Done_effect:
  assumes "issue_loyalty_ticket nv nonce name recipient a ks vs sg (box, s) = Done (box', s')"
  shows "a \<le> infinity_credits box
    \<and> box' = box\<lparr>infinity_credits := infinity_credits box - a\<rparr>
    \<and> (\<exists>t. tickets_sent s' = tickets_sent s @ [(t, recipient)]
          \<and> ticket_infinity_credits t = a \<and> ticket_type t = box_type box)"
  using assms
  by (auto simp add: issue_loyalty_ticket_def check_def Let_def object_new_def
      split: if_splits option.splits sum.splits prod.splits)

lemma apply_Done_effect:
  assumes "apply_loyalty_ticket nv t nonce sg (box, s) = Done (box', s')"
  shows "box_type box = ticket_type t
    \<and> unat (infinity_credits box) + unat (ticket_infinity_credits t) < 2 ^ 64
    \<and> box' = box\<lparr>infinity_credits := infinity_credits box + ticket_infinity_credits t\<rparr>
    \<and> deleted s' = deleted s @ [ticket_id t]"
  using assms
  by (auto simp add: apply_loyalty_ticket_def check_def Let_def u64_add_def
      split: if_splits option.splits sum.splits prod.splits)

lemma apply_succeeds:
  assumes "version (config s) = VERSION" and "nonce_used (config s) n = Inr False"
    and "box_type box = ticket_type t"
    and "signature_valid nv (config s) sg
           (keccak256 nv (address_to_bytes (sender (ctx s)) @ bcs_to_bytes n))"
    and "unat (infinity_credits box) + unat (ticket_infinity_credits t) < 2 ^ 64"
    and "collection_id_by_name nv (config s) (bytes_of ''loyalty_ticket'') = Inr col"
  shows "\<exists>s'. apply_loyalty_ticket nv t n sg (box, s)
    = Done (box\<lparr>infinity_credits := infinity_credits box + ticket_infinity_credits t\<rparr>, s')"
  using assms
  by (auto simp add: apply_loyalty_ticket_def guard_defs check_def Let_def u64_add_def
      collection_id_by_name_def split: option.splits)


section \<open>Facts about the contract\<close>

lemmas land_defs = claimLands_def mintLands_def reserve_def reserveClaim_def reservePublic_def
  issue_def maxTotal_def

lemmas admin_defs = setSupply_def setClaimableActive_def setMintStartTime_def setSigner_def
  setMaxMintPerAddress_def setMintPrice_def

lemmas land_demo_defs = deployed_def e2e_def demo_verify_def

lemma claimLands_Inr:
  assumes "claimLands vf a amount c sg s = Inr s'"
  shows "claimActive s" and "vf (trusted_signer s) (a, c) sg"
    and "allocation s a + amount \<le> c"
    and "allocation s' = (allocation s)(a := allocation s a + amount)"
    and "claimedCount s' = claimedCount s + amount"
    and "publicMintedCount s' = publicMintedCount s"
    and "maxClaimable s' = maxClaimable s" and "maxPublic s' = maxPublic s"
    and "claimedCount s' + publicMintedCount s' \<le> maxTotal s'"
  using assms
  by (auto simp add: land_defs Let_def split: if_splits)

lemma mintLands_Inr:
  assumes "mintLands now a amount v s = Inr s'"
  shows "v = unitPrice s * amount" and "allocation s' = allocation s"
    and "claimedCount s' = claimedCount s"
    and "publicMintedCount s' = publicMintedCount s + amount"
    and "maxClaimable s' = maxClaimable s" and "maxPublic s' = maxPublic s"
    and "claimedCount s' + publicMintedCount s' \<le> maxTotal s'"
  using assms
  by (auto simp add: land_defs Let_def split: if_splits)

lemma claimLands_Inr_frame:
  assumes "claimLands vf a amount c sg s = Inr s'"
  shows "claimActive s' = claimActive s" and "trusted_signer s' = trusted_signer s"
    and "maxTotal s' = maxTotal s"
  using assms
  by (auto simp add: land_defs Let_def split: if_splits)

lemma claimLands_honoured:
  "(\<exists>s'. claimLands vf a amount c sg s = Inr s') =
   (claimActive s \<and> vf (trusted_signer s) (a, c) sg \<and> allocation s a + amount \<le> c
    \<and> claimedCount s + amount \<le> maxClaimable s
    \<and> claimedCount s + publicMintedCount s + amount \<le> maxTotal s)"
  by (auto simp add: land_defs Let_def split: if_splits)

lemma claimLands_over:
  "claimActive s \<Longrightarrow> vf (trusted_signer s) (a, c) sg \<Longrightarrow> c < allocation s a + amount \<Longrightarrow>
   claimLands vf a amount c sg s = Inl CeilingExceeded"
  by (simp add: land_defs)

lemma claimLands_refused:
  "c < allocation s a + amount \<Longrightarrow> isl (claimLands vf a amount c sg s)"
  by (simp add: land_defs)

lemma after_refused: "handle vf r s = Inl e \<Longrightarrow> after vf r s = s"
  by (simp add: after_def)

lemma isl_after: "isl (handle vf r s) \<Longrightarrow> after vf r s = s"
  by (cases "handle vf r s") (simp_all add: after_def)

lemma after_allocation_other:
  assumes "\<And>caller amount ceiling sg. r \<noteq> ClaimLands caller amount ceiling sg"
  shows "allocation (after vf r s) = allocation s"
proof (cases r)
  case (MintLands now caller amount payment)
  then show ?thesis
    by (cases "mintLands now caller amount payment s") (simp_all add: after_def mintLands_Inr)
qed (use assms in \<open>auto simp add: after_def admin_defs\<close>)

lemma after_allocation_claim:
  "allocation (after vf (ClaimLands caller amount ceiling sg) s) a =
   allocation s a
   + (if caller = a \<and> \<not> isl (claimLands vf caller amount ceiling sg s) then amount else 0)"
  by (cases "claimLands vf caller amount ceiling sg s")
    (simp_all add: after_def claimLands_Inr)

lemma serve_allocation:
  "allocation (serve vf rs s) a = allocation s a + reserved vf a rs s"
proof (induction rs arbitrary: s)
  case Nil
  show ?case by simp
next
  case (Cons r rs)
  show ?case
  proof (cases r)
    case (ClaimLands caller amount ceiling sg)
    then show ?thesis
      using Cons [of "after vf r s"] by (simp add: after_allocation_claim)
  qed (use Cons [of "after vf r s"] in \<open>simp_all add: after_allocation_other\<close>)
qed

lemma after_within_ceiling:
  assumes "against a c r" and "allocation s a \<le> c"
  shows "allocation (after vf r s) a \<le> c"
proof (cases r)
  case (ClaimLands caller amount ceiling sg)
  show ?thesis
  proof (cases "claimLands vf caller amount ceiling sg s")
    case (Inl e)
    with ClaimLands assms show ?thesis by (simp add: after_def)
  next
    case (Inr s')
    with ClaimLands assms claimLands_Inr [OF Inr] show ?thesis
      by (auto simp add: after_def)
  qed
qed (use assms in \<open>simp_all add: after_allocation_other\<close>)

lemma serve_within_ceiling:
  "\<forall>r \<in> set rs. against a c r \<Longrightarrow> allocation s a \<le> c \<Longrightarrow> allocation (serve vf rs s) a \<le> c"
  by (induction rs arbitrary: s) (simp_all add: after_within_ceiling)

lemmas run_defs = land_defs admin_defs land_demo_defs after_def Let_def

subsection \<open>The scenarios of the test suite, replayed\<close>

lemma replay_minter5:
  "outcomes demo_verify minter5 e2e = [None, Some CeilingExceeded, None, Some CeilingExceeded]"
  by (simp add: minter5_def run_defs)

lemma replay_public_round:
  "outcomes demo_verify public_round (e2e\<lparr>claimedCount := 313\<rparr>) =
     [None, Some PerAddressLimitExceeded, None, Some PublicSupplyExceeded, None,
      Some PublicSupplyExceeded, Some NotStarted]"
  by (simp add: public_round_def run_defs)

lemma replay_invalid_proof:
  "claimLands demo_verify 3 1 10000 (sign 2 3 10001) deployed = Inl InvalidSignature"
  "claimLands demo_verify 9 1 10000 (sign 2 3 10000) deployed = Inl InvalidSignature"
  by (auto simp add: run_defs sign_def address_to_bytes_def bcs_to_bytes_def
      intro!: bexI [of _ 0])

lemma replay_payment:
  "mintLands 1000 3 2 50 deployed = Inl IncorrectPayment"
  "mintLands 1000 3 0 0 deployed = Inl ZeroAmount"
  "\<not> isl (mintLands 1000 3 4 200 deployed)"
  by (simp_all add: run_defs)

subsection \<open>The counters and the caps\<close>

lemma after_within_total:
  assumes "claimedCount s + publicMintedCount s \<le> maxTotal s" and "keeps_caps r s"
  shows "claimedCount (after vf r s) + publicMintedCount (after vf r s) \<le> maxTotal (after vf r s)"
proof (cases r)
  case (ClaimLands caller amount ceiling sg)
  then show ?thesis
    using assms(1) claimLands_Inr(9) [of vf caller amount ceiling sg s]
    by (cases "claimLands vf caller amount ceiling sg s") (simp_all add: after_def)
next
  case (MintLands now caller amount payment)
  then show ?thesis
    using assms(1) mintLands_Inr(7) [of now caller amount payment s]
    by (cases "mintLands now caller amount payment s") (simp_all add: after_def)
qed (use assms in \<open>auto simp add: after_def admin_defs maxTotal_def\<close>)

lemma serve_within_total:
  "claimedCount s + publicMintedCount s \<le> maxTotal s \<Longrightarrow> all_keep_caps vf rs s \<Longrightarrow>
   claimedCount (serve vf rs s) + publicMintedCount (serve vf rs s) \<le> maxTotal (serve vf rs s)"
  by (induction rs arbitrary: s) (simp_all add: after_within_total)

lemma all_keep_caps_take: "all_keep_caps vf rs s \<Longrightarrow> all_keep_caps vf (take k rs) s"
proof (induction rs arbitrary: s k)
  case Nil
  show ?case by simp
next
  case (Cons r rs)
  then show ?case by (cases k) simp_all
qed

lemma mintLands_wrong_payment:
  "\<not> isl (mintLands now a n p s) \<Longrightarrow> v \<noteq> unitPrice s * n \<Longrightarrow>
   mintLands now a n v s = Inl IncorrectPayment"
  by (auto simp add: mintLands_def reservePublic_def maxTotal_def split: if_splits)

section \<open>The claims\<close>

text \<open>
  C1. Once one of \<open>claim_box\<close>, \<open>sync\<close>, \<open>issue_loyalty_ticket\<close> and
  \<open>apply_loyalty_ticket\<close> has run to its end with the nonce \<open>n\<close> (the transaction \<open>first\<close>),
  every later call of one of the four that presents \<open>n\<close> aborts with
  \<open>ENonceAlreadyUsed\<close> and leaves the \<open>Config\<close> as it was, whatever its other arguments
  are, whoever sends it, and whatever transactions (\<open>between\<close>: calls of any entry
  function of \<open>wb::utility\<close> and \<open>wb::loyalty\<close> on the \<open>Config\<close>, the admin's included)
  have run in between.
\<close>

theorem nonce_single_use:
  assumes "call_nonce first = Some n" and "fst (transact nv first c) = None"
    and "call_nonce later = Some n"
  shows "transact nv later (run nv between (snd (transact nv first c)))
    = (Some ENonceAlreadyUsed, run nv between (snd (transact nv first c)))"
  using assms by (intro marked_rejects run_marked success_marks)

theorem nonce_single_use_witness:
  "call_nonce demo_first = Some 4 \<and> fst (transact demo_natives demo_first demo_config) = None
   \<and> call_nonce demo_later = Some 4
   \<and> transact demo_natives demo_later
       (run demo_natives demo_between (snd (transact demo_natives demo_first demo_config)))
     = (Some ENonceAlreadyUsed,
        run demo_natives demo_between (snd (transact demo_natives demo_first demo_config)))"
proof -
  have 1: "call_nonce demo_first = Some 4"
    by (simp add: demo_first_def)
  have 2: "fst (transact demo_natives demo_first demo_config) = None"
    by (simp add: demo_first_def demo_sync_sig_def sync_def guard_defs signature_valid_def
        check_simps demo_defs u64_add_def)
  have 3: "call_nonce demo_later = Some 4"
    by (simp add: demo_later_def)
  from nonce_single_use [OF 1 2 3, of demo_between] 1 2 3 show ?thesis
    by simp
qed

text \<open>
  C9. Each of the four loyalty entry functions checks the version of the \<open>Config\<close>
  first: when it differs from \<open>VERSION\<close> the call aborts with \<open>EWrongVersion\<close>, whatever
  the nonce, the signature, the box, the ticket and the rest of the \<open>Config\<close> are (a
  missing nonce table included), and the state the call has at the abort is the state
  it was entered with.
\<close>

theorem wrong_version_aborts_first:
  assumes "version (config s) \<noteq> VERSION"
  shows "claim_box nv nonce ty name credits ks vs sg s = Aborted EWrongVersion s
    \<and> sync nv nonce credits sg (box, s) = Aborted EWrongVersion (box, s)
    \<and> issue_loyalty_ticket nv nonce name recipient credits ks vs sg (box, s)
        = Aborted EWrongVersion (box, s)
    \<and> apply_loyalty_ticket nv ticket nonce sg (box, s) = Aborted EWrongVersion (box, s)"
  using assms
  by (simp add: claim_box_wrong_version sync_wrong_version issue_wrong_version
      apply_wrong_version)

theorem wrong_version_aborts_first_witness:
  "version (config old_frame) \<noteq> VERSION
   \<and> nonce_used (config old_frame) 4 = Inl EFieldDoesNotExist
   \<and> claim_box deaf_natives 4 1 [] 50 [] [] [] old_frame = Aborted EWrongVersion old_frame
   \<and> sync deaf_natives 4 50 [] (demo_box, old_frame) = Aborted EWrongVersion (demo_box, old_frame)
   \<and> issue_loyalty_ticket deaf_natives 4 [] 8 500 [] [] [] (demo_box, old_frame)
        = Aborted EWrongVersion (demo_box, old_frame)
   \<and> apply_loyalty_ticket deaf_natives (demo_ticket\<lparr>ticket_type := 2\<rparr>) 4 [] (demo_box, old_frame)
        = Aborted EWrongVersion (demo_box, old_frame)"
proof -
  have 1: "version (config old_frame) \<noteq> VERSION"
    by (simp add: old_frame_def demo_defs)
  have 2: "nonce_used (config old_frame) 4 = Inl EFieldDoesNotExist"
    by (simp add: old_frame_def demo_defs nonce_used_def)
  from wrong_version_aborts_first [OF 1] 1 2 show ?thesis
    by simp
qed

text \<open>
  C2, as the spec states it, fails: a \<open>claim_box\<close> request whose signature is invalid and
  whose nonce is already used is refused by the replay check, with \<open>ENonceAlreadyUsed\<close>,
  not by the signature check.
\<close>

theorem signature_before_replay_counterexample:
  "\<not> signature_valid deaf_natives (config used_frame) []
       (keccak256 deaf_natives (address_to_bytes (sender (ctx used_frame)) @ bcs_to_bytes 4
          @ bcs_to_bytes 1 @ bcs_to_bytes 50))
   \<and> nonce_used (config used_frame) 4 = Inr True
   \<and> abort_of (claim_box deaf_natives 4 1 [] 50 [] [] [] used_frame) \<noteq> Some EInvalidSignature
   \<and> claim_box deaf_natives 4 1 [] 50 [] [] [] used_frame = Aborted ENonceAlreadyUsed used_frame"
  by (simp add: used_frame_def demo_defs claim_box_def guard_defs signature_valid_def check_simps)


text \<open>
  C2, amended. \<open>claim_box\<close> and \<open>sync\<close> check in this order: the version gate
  (\<open>EWrongVersion\<close>), then the nonce (\<open>ENonceAlreadyUsed\<close>), then the signature
  (\<open>EInvalidSignature\<close>) over the hash of the sender, the nonce and the signed numbers.
  The first check that fails aborts the call, in the state the call was entered with;
  a call that runs to its end has passed all three and has marked its nonce.
\<close>

theorem claim_path_check_order:
  assumes hc: "hc = keccak256 nv (address_to_bytes (sender (ctx s)) @ bcs_to_bytes nonce
                  @ bcs_to_bytes ty @ bcs_to_bytes credits)"
    and hs: "hs = keccak256 nv (address_to_bytes (sender (ctx s)) @ bcs_to_bytes nonce
                  @ bcs_to_bytes credits)"
  shows "(version (config s) \<noteq> VERSION \<longrightarrow>
            claim_box nv nonce ty name credits ks vs sg s = Aborted EWrongVersion s
          \<and> sync nv nonce credits sg (box, s) = Aborted EWrongVersion (box, s))
    \<and> (version (config s) = VERSION \<and> nonce_used (config s) nonce = Inr True \<longrightarrow>
            claim_box nv nonce ty name credits ks vs sg s = Aborted ENonceAlreadyUsed s
          \<and> sync nv nonce credits sg (box, s) = Aborted ENonceAlreadyUsed (box, s))
    \<and> (version (config s) = VERSION \<and> nonce_used (config s) nonce = Inr False
          \<and> \<not> signature_valid nv (config s) sg hc \<longrightarrow>
            claim_box nv nonce ty name credits ks vs sg s = Aborted EInvalidSignature s)
    \<and> (version (config s) = VERSION \<and> nonce_used (config s) nonce = Inr False
          \<and> \<not> signature_valid nv (config s) sg hs \<longrightarrow>
            sync nv nonce credits sg (box, s) = Aborted EInvalidSignature (box, s))
    \<and> (\<forall>s'. claim_box nv nonce ty name credits ks vs sg s = Done s' \<longrightarrow>
            version (config s) = VERSION \<and> nonce_used (config s) nonce = Inr False
          \<and> signature_valid nv (config s) sg hc \<and> nonce_used (config s') nonce = Inr True)
    \<and> (\<forall>bs'. sync nv nonce credits sg (box, s) = Done bs' \<longrightarrow>
            version (config s) = VERSION \<and> nonce_used (config s) nonce = Inr False
          \<and> signature_valid nv (config s) sg hs
          \<and> nonce_used (config (snd bs')) nonce = Inr True)"
proof (intro conjI impI allI)
  assume "version (config s) \<noteq> VERSION"
  then show "claim_box nv nonce ty name credits ks vs sg s = Aborted EWrongVersion s"
    and "sync nv nonce credits sg (box, s) = Aborted EWrongVersion (box, s)"
    by (simp_all add: claim_box_wrong_version sync_wrong_version)
next
  assume a: "version (config s) = VERSION \<and> nonce_used (config s) nonce = Inr True"
  then obtain t where "used_nonces_dof (config s) = Some t" "nonce \<in> dom t"
    using nonce_used_True by blast
  with a show "claim_box nv nonce ty name credits ks vs sg s = Aborted ENonceAlreadyUsed s"
    and "sync nv nonce credits sg (box, s) = Aborted ENonceAlreadyUsed (box, s)"
    by (simp_all add: claim_box_used sync_used)
next
  assume "version (config s) = VERSION \<and> nonce_used (config s) nonce = Inr False
    \<and> \<not> signature_valid nv (config s) sg hc"
  then show "claim_box nv nonce ty name credits ks vs sg s = Aborted EInvalidSignature s"
    by (simp add: hc claim_box_bad_sig)
next
  assume "version (config s) = VERSION \<and> nonce_used (config s) nonce = Inr False
    \<and> \<not> signature_valid nv (config s) sg hs"
  then show "sync nv nonce credits sg (box, s) = Aborted EInvalidSignature (box, s)"
    by (simp add: hs sync_bad_sig)
next
  fix s' assume d: "claim_box nv nonce ty name credits ks vs sg s = Done s'"
  from claim_box_Done_checks [OF d]
  show "version (config s) = VERSION" "nonce_used (config s) nonce = Inr False"
    "signature_valid nv (config s) sg hc" "nonce_used (config s') nonce = Inr True"
    by (simp_all add: hc)
next
  fix bs' assume d: "sync nv nonce credits sg (box, s) = Done bs'"
  from sync_Done_checks [OF d]
  show "version (config s) = VERSION" "nonce_used (config s) nonce = Inr False"
    "signature_valid nv (config s) sg hs" "nonce_used (config (snd bs')) nonce = Inr True"
    by (simp_all add: hs)
qed

theorem claim_path_check_order_witness:
  "claim_box deaf_natives 4 1 [] 50 [] [] [] old_frame = Aborted EWrongVersion old_frame
   \<and> sync deaf_natives 4 50 [] (demo_box, old_frame) = Aborted EWrongVersion (demo_box, old_frame)
   \<and> claim_box deaf_natives 4 1 [] 50 [] [] [] used_frame = Aborted ENonceAlreadyUsed used_frame
   \<and> sync deaf_natives 4 50 [] (demo_box, used_frame)
        = Aborted ENonceAlreadyUsed (demo_box, used_frame)
   \<and> claim_box deaf_natives 4 1 [] 50 [] [] demo_claim_sig demo_frame
        = Aborted EInvalidSignature demo_frame
   \<and> sync deaf_natives 4 50 demo_sync_sig (demo_box, demo_frame)
        = Aborted EInvalidSignature (demo_box, demo_frame)
   \<and> (\<exists>s'. claim_box demo_natives 4 1 [] 50 [] [] demo_claim_sig demo_frame = Done s'
          \<and> nonce_used (config s') 4 = Inr True)
   \<and> (\<exists>bs'. sync demo_natives 4 50 demo_sync_sig (demo_box, demo_frame) = Done bs'
          \<and> nonce_used (config (snd bs')) 4 = Inr True)"
proof -
  have old: "version (config old_frame) \<noteq> VERSION"
    by (simp add: old_frame_def demo_defs)
  have used: "version (config used_frame) = VERSION \<and> nonce_used (config used_frame) 4 = Inr True"
    by (simp add: used_frame_def demo_defs nonce_used_def)
  have fresh: "version (config demo_frame) = VERSION
      \<and> nonce_used (config demo_frame) 4 = Inr False"
    by (simp add: demo_frame_def demo_defs nonce_used_def)
  have deaf: "\<not> signature_valid deaf_natives (config demo_frame) sg h" for sg h
    by (simp add: signature_valid_def demo_defs)
  have c: "\<exists>s'. claim_box demo_natives 4 1 [] 50 [] [] demo_claim_sig demo_frame = Done s'"
    by (simp add: demo_frame_def demo_claim_sig_def claim_box_def guard_defs
        signature_valid_def check_simps demo_defs object_new_def)
  have y: "\<exists>bs'. sync demo_natives 4 50 demo_sync_sig (demo_box, demo_frame) = Done bs'"
    by (simp add: demo_frame_def demo_sync_sig_def sync_def guard_defs signature_valid_def
        check_simps demo_defs u64_add_def)
  note t = claim_path_check_order [OF refl refl]
  from t [where s = old_frame and nv = deaf_natives and box = demo_box] old
  have 1: "claim_box deaf_natives 4 1 [] 50 [] [] [] old_frame = Aborted EWrongVersion old_frame
     \<and> sync deaf_natives 4 50 [] (demo_box, old_frame) = Aborted EWrongVersion (demo_box, old_frame)"
    by blast
  from t [where s = used_frame and nv = deaf_natives and box = demo_box and nonce = 4] used
  have 2: "claim_box deaf_natives 4 1 [] 50 [] [] [] used_frame
        = Aborted ENonceAlreadyUsed used_frame
     \<and> sync deaf_natives 4 50 [] (demo_box, used_frame)
        = Aborted ENonceAlreadyUsed (demo_box, used_frame)"
    by blast
  from t [where s = demo_frame and nv = deaf_natives and box = demo_box and nonce = 4] fresh deaf
  have 3: "claim_box deaf_natives 4 1 [] 50 [] [] demo_claim_sig demo_frame
        = Aborted EInvalidSignature demo_frame
     \<and> sync deaf_natives 4 50 demo_sync_sig (demo_box, demo_frame)
        = Aborted EInvalidSignature (demo_box, demo_frame)"
    by blast
  from t [where s = demo_frame and nv = demo_natives and box = demo_box and nonce = 4] c y
  have 4: "(\<exists>s'. claim_box demo_natives 4 1 [] 50 [] [] demo_claim_sig demo_frame = Done s'
          \<and> nonce_used (config s') 4 = Inr True)
   \<and> (\<exists>bs'. sync demo_natives 4 50 demo_sync_sig (demo_box, demo_frame) = Done bs'
          \<and> nonce_used (config (snd bs')) 4 = Inr True)"
    by blast
  from 1 2 3 4 show ?thesis by blast
qed

text \<open>
  C10. Credits are conserved across tickets. An \<open>issue_loyalty_ticket\<close> that runs to
  its end on a box with \<open>c\<close> credits for the amount \<open>a\<close> had \<open>a \<le> c\<close>, leaves the box with
  exactly \<open>c - a\<close> credits and nothing else changed, and transfers one ticket carrying
  exactly \<open>a\<close> credits and the box's type. An \<open>apply_loyalty_ticket\<close> that runs to its end
  was given a ticket of the box's type, raises the box's credits by exactly the
  ticket's credits and deletes the ticket. And the ticket issued from a box, applied
  back to that box in a later call with the current version, an unused nonce, a valid
  signature and the ticket collection registered, does run to its end (the addition
  cannot overflow) and gives the box back as it was before the issue.
\<close>

theorem credits_conserved:
  "(issue_loyalty_ticket nv n1 name recipient a ks vs sg1 (box, s) = Done (box1, s1) \<longrightarrow>
      a \<le> infinity_credits box
      \<and> unat (infinity_credits box1) = unat (infinity_credits box) - unat a
      \<and> box1 = box\<lparr>infinity_credits := infinity_credits box - a\<rparr>
      \<and> (\<exists>t. tickets_sent s1 = tickets_sent s @ [(t, recipient)]
            \<and> ticket_infinity_credits t = a \<and> ticket_type t = box_type box))
   \<and> (apply_loyalty_ticket nv t n2 sg2 (box, s) = Done (box2, s2) \<longrightarrow>
      box_type box = ticket_type t
      \<and> unat (infinity_credits box2)
          = unat (infinity_credits box) + unat (ticket_infinity_credits t)
      \<and> box2 = box\<lparr>infinity_credits := infinity_credits box + ticket_infinity_credits t\<rparr>
      \<and> ticket_id t \<in> set (deleted s2))
   \<and> (issue_loyalty_ticket nv n1 name recipient a ks vs sg1 (box, s) = Done (box1, s1)
       \<and> tickets_sent s1 = tickets_sent s @ [(t, recipient)]
       \<and> version (config s3) = VERSION \<and> nonce_used (config s3) n2 = Inr False
       \<and> signature_valid nv (config s3) sg2
            (keccak256 nv (address_to_bytes (sender (ctx s3)) @ bcs_to_bytes n2))
       \<and> collection_id_by_name nv (config s3) (bytes_of ''loyalty_ticket'') = Inr col \<longrightarrow>
      (\<exists>s4. apply_loyalty_ticket nv t n2 sg2 (box1, s3) = Done (box, s4)))"
proof (intro conjI impI)
  assume i: "issue_loyalty_ticket nv n1 name recipient a ks vs sg1 (box, s) = Done (box1, s1)"
  note e = issue_Done_effect [OF i]
  from e show "a \<le> infinity_credits box" by simp
  then show "unat (infinity_credits box1) = unat (infinity_credits box) - unat a"
    using e by (simp add: unat_sub)
  from e show "box1 = box\<lparr>infinity_credits := infinity_credits box - a\<rparr>" by simp
  from e show "\<exists>t. tickets_sent s1 = tickets_sent s @ [(t, recipient)]
      \<and> ticket_infinity_credits t = a \<and> ticket_type t = box_type box" by simp
next
  assume p: "apply_loyalty_ticket nv t n2 sg2 (box, s) = Done (box2, s2)"
  note e = apply_Done_effect [OF p]
  from e show "box_type box = ticket_type t" by simp
  from e show "unat (infinity_credits box2)
      = unat (infinity_credits box) + unat (ticket_infinity_credits t)"
    by (simp add: unat_add_lem [THEN iffD1])
  from e show "box2 = box\<lparr>infinity_credits := infinity_credits box + ticket_infinity_credits t\<rparr>"
    by simp
  from e show "ticket_id t \<in> set (deleted s2)" by simp
next
  assume h: "issue_loyalty_ticket nv n1 name recipient a ks vs sg1 (box, s) = Done (box1, s1)
       \<and> tickets_sent s1 = tickets_sent s @ [(t, recipient)]
       \<and> version (config s3) = VERSION \<and> nonce_used (config s3) n2 = Inr False
       \<and> signature_valid nv (config s3) sg2
            (keccak256 nv (address_to_bytes (sender (ctx s3)) @ bcs_to_bytes n2))
       \<and> collection_id_by_name nv (config s3) (bytes_of ''loyalty_ticket'') = Inr col"
  then have i: "issue_loyalty_ticket nv n1 name recipient a ks vs sg1 (box, s) = Done (box1, s1)"
    by simp
  note e = issue_Done_effect [OF i]
  from e h have t: "ticket_infinity_credits t = a" "ticket_type t = box_type box"
    by auto
  from e have le: "a \<le> infinity_credits box"
    and b1: "box1 = box\<lparr>infinity_credits := infinity_credits box - a\<rparr>" by simp_all
  have "unat (infinity_credits box - a) + unat a = unat (infinity_credits box)"
    using le by (simp add: unat_sub word_le_nat_alt)
  moreover have "unat (infinity_credits box) < 2 ^ 64"
    using unsigned_less [of "infinity_credits box"] by simp
  ultimately have fit: "unat (infinity_credits box1) + unat (ticket_infinity_credits t) < 2 ^ 64"
    by (simp add: b1 t)
  have ty: "box_type box1 = ticket_type t"
    by (simp add: b1 t)
  from apply_succeeds [OF _ _ ty _ fit, of s3 n2 nv sg2 col] h
  obtain s4 where "apply_loyalty_ticket nv t n2 sg2 (box1, s3)
      = Done (box1\<lparr>infinity_credits := infinity_credits box1 + ticket_infinity_credits t\<rparr>, s4)"
    by auto
  moreover have "box1\<lparr>infinity_credits := infinity_credits box1 + ticket_infinity_credits t\<rparr> = box"
    by (simp add: b1 t)
  ultimately show "\<exists>s4. apply_loyalty_ticket nv t n2 sg2 (box1, s3) = Done (box, s4)"
    by auto
qed

theorem credits_conserved_witness:
  "\<exists>s1 s4.
     issue_loyalty_ticket demo_natives 5 [] 8 30 [] [] demo_issue_sig (demo_box, demo_frame)
       = Done (demo_box\<lparr>infinity_credits := 70\<rparr>, s1)
     \<and> tickets_sent s1 = [(demo_ticket, 8)]
     \<and> apply_loyalty_ticket demo_natives demo_ticket 6 demo_apply_sig
         (demo_box\<lparr>infinity_credits := 70\<rparr>, enter (config s1) (demo_ctx\<lparr>sender := 8\<rparr>))
       = Done (demo_box, s4)
     \<and> ticket_id demo_ticket \<in> set (deleted s4)"
proof -
  have "\<exists>s1. issue_loyalty_ticket demo_natives 5 [] 8 30 [] [] demo_issue_sig
        (demo_box, demo_frame) = Done (demo_box\<lparr>infinity_credits := 70\<rparr>, s1)
      \<and> tickets_sent s1 = [(demo_ticket, 8)]
      \<and> config s1 = demo_config\<lparr>used_nonces_dof := Some [5 \<mapsto> True]\<rparr>"
    by (simp add: demo_frame_def demo_issue_sig_def demo_ticket_def issue_loyalty_ticket_def
        guard_defs signature_valid_def check_simps demo_defs object_new_def
        collection_id_by_name_def loyalty_ticket_ascii)
  then obtain s1 where
    i: "issue_loyalty_ticket demo_natives 5 [] 8 30 [] [] demo_issue_sig (demo_box, demo_frame)
        = Done (demo_box\<lparr>infinity_credits := 70\<rparr>, s1)"
    and ts: "tickets_sent s1 = [(demo_ticket, 8)]"
    and c: "config s1 = demo_config\<lparr>used_nonces_dof := Some [5 \<mapsto> True]\<rparr>"
    by blast
  let ?s3 = "enter (config s1) (demo_ctx\<lparr>sender := 8\<rparr>)"
  have ts': "tickets_sent s1 = tickets_sent demo_frame @ [(demo_ticket, 8)]"
    by (simp add: ts demo_frame_def enter_def)
  have v: "version (config ?s3) = VERSION" and n: "nonce_used (config ?s3) 6 = Inr False"
    and g: "signature_valid demo_natives (config ?s3) demo_apply_sig
        (keccak256 demo_natives (address_to_bytes (sender (ctx ?s3)) @ bcs_to_bytes 6))"
    and k: "collection_id_by_name demo_natives (config ?s3) (bytes_of ''loyalty_ticket'') = Inr 5"
    by (simp_all add: c demo_defs nonce_used_def signature_valid_def demo_apply_sig_def
        collection_id_by_name_def loyalty_ticket_ascii)
  from credits_conserved [where nv = demo_natives and box = demo_box and s = demo_frame
      and ?box1.0 = "demo_box\<lparr>infinity_credits := 70\<rparr>" and ?s1.0 = s1 and t = demo_ticket
      and recipient = 8 and ?n1.0 = 5 and name = "[]" and a = 30 and ks = "[]" and vs = "[]"
      and ?sg1.0 = demo_issue_sig and ?s3.0 = ?s3 and ?n2.0 = 6 and ?sg2.0 = demo_apply_sig
      and col = 5] i ts' v n g k
  obtain s4 where p: "apply_loyalty_ticket demo_natives demo_ticket 6 demo_apply_sig
      (demo_box\<lparr>infinity_credits := 70\<rparr>, ?s3) = Done (demo_box, s4)"
    by blast
  from credits_conserved [where nv = demo_natives and box = "demo_box\<lparr>infinity_credits := 70\<rparr>"
      and s = ?s3 and t = demo_ticket and ?n2.0 = 6 and ?sg2.0 = demo_apply_sig
      and ?box2.0 = demo_box and ?s2.0 = s4] p
  have "ticket_id demo_ticket \<in> set (deleted s4)"
    by blast
  with i ts p show ?thesis by blast
qed

text \<open>
  C6. For an address \<open>a\<close> and a ceiling \<open>c\<close>, over any list of requests to the contract
  (claims of \<open>a\<close>, each declaring the ceiling \<open>c\<close>, and any requests of others and of the
  admin in between), started where \<open>a\<close> has consumed at most \<open>c\<close>: what \<open>a\<close> has consumed at
  the end is what it had consumed plus the sum of the amounts reserved for it on the
  way, and that sum stays within \<open>c\<close>. The request of \<open>a\<close> that would push the sum over
  \<open>c\<close>, made with the claim switch on and a proof the verifier accepts, is refused with
  \<open>CeilingExceeded\<close> and leaves the state reached so far as it is.
\<close>

theorem ceiling_bounds_reservations:
  assumes "\<forall>r \<in> set rs. against a c r" and "allocation s a \<le> c"
  shows "allocation (serve vf rs s) a = allocation s a + reserved vf a rs s
    \<and> allocation s a + reserved vf a rs s \<le> c
    \<and> (claimActive (serve vf rs s) \<and> vf (trusted_signer (serve vf rs s)) (a, c) sg
        \<and> c < allocation s a + reserved vf a rs s + amount \<longrightarrow>
          claimLands vf a amount c sg (serve vf rs s) = Inl CeilingExceeded
        \<and> after vf (ClaimLands a amount c sg) (serve vf rs s) = serve vf rs s)"
proof -
  have 1: "allocation (serve vf rs s) a = allocation s a + reserved vf a rs s"
    by (rule serve_allocation)
  have 2: "allocation s a + reserved vf a rs s \<le> c"
    using serve_within_ceiling [OF assms, of vf] by (simp add: 1)
  have 3: "claimLands vf a amount c sg (serve vf rs s) = Inl CeilingExceeded
      \<and> after vf (ClaimLands a amount c sg) (serve vf rs s) = serve vf rs s"
    if "claimActive (serve vf rs s) \<and> vf (trusted_signer (serve vf rs s)) (a, c) sg
        \<and> c < allocation s a + reserved vf a rs s + amount"
  proof -
    from that have "claimLands vf a amount c sg (serve vf rs s) = Inl CeilingExceeded"
      by (intro claimLands_over) (simp_all add: 1)
    then show ?thesis by (simp add: after_def)
  qed
  from 1 2 3 show ?thesis by blast
qed


theorem ceiling_bounds_reservations_witness:
  "allocation e2e 6 = 0 \<and> reserved demo_verify 6 buyer_b e2e = 2
   \<and> allocation (serve demo_verify buyer_b e2e) 6 = 2
   \<and> claimLands demo_verify 6 3 4 (sign 2 6 4) (serve demo_verify buyer_b e2e)
        = Inl CeilingExceeded
   \<and> after demo_verify (ClaimLands 6 3 4 (sign 2 6 4)) (serve demo_verify buyer_b e2e)
        = serve demo_verify buyer_b e2e
   \<and> \<not> isl (claimLands demo_verify 6 2 4 (sign 2 6 4) (serve demo_verify buyer_b e2e))"
proof -
  have a: "\<forall>r \<in> set buyer_b. against 6 4 r"
    by (simp add: buyer_b_def)
  have z: "allocation e2e 6 = 0"
    by (simp add: land_demo_defs)
  have r: "reserved demo_verify 6 buyer_b e2e = 2"
    by (simp add: buyer_b_def run_defs)
  have g: "claimActive (serve demo_verify buyer_b e2e)
      \<and> demo_verify (trusted_signer (serve demo_verify buyer_b e2e)) (6, 4) (sign 2 6 4)"
    by (simp add: buyer_b_def run_defs)
  have ok: "\<not> isl (claimLands demo_verify 6 2 4 (sign 2 6 4) (serve demo_verify buyer_b e2e))"
    by (simp add: buyer_b_def run_defs)
  from ceiling_bounds_reservations [OF a, of e2e demo_verify "sign 2 6 4" 3] z r g ok
  show ?thesis by simp
qed

text \<open>
  C3, as the spec states it, fails on the requests of \<open>claimableMinter5\<close> in the test
  suite: a claim of 1 under the signed ceiling 1 and a claim of 2 under the signed
  ceiling 3 are both honoured, and the address has then claimed 3, more than the
  smallest ceiling it presented.
\<close>

theorem strictest_ceiling_counterexample:
  "outcomes demo_verify [ClaimLands 5 1 1 (sign 2 5 1), ClaimLands 5 2 3 (sign 2 5 3)] e2e
     = [None, None]
   \<and> allocation (serve demo_verify
        [ClaimLands 5 1 1 (sign 2 5 1), ClaimLands 5 2 3 (sign 2 5 3)] e2e) 5 = 3
   \<and> \<not> allocation (serve demo_verify
        [ClaimLands 5 1 1 (sign 2 5 1), ClaimLands 5 2 3 (sign 2 5 3)] e2e) 5 \<le> min 1 3"
  by (simp add: run_defs)

text \<open>
  C3, amended. A claim that is honoured leaves the address at no more than the ceiling
  signed in the proof presented with that claim. A request presenting a ceiling below
  what the address has already consumed is refused, whatever its amount, and changes
  nothing; with the claim switch on and a proof the verifier accepts, the refusal is
  \<open>CeilingExceeded\<close>. A claim is honoured exactly when the claim switch is on, its
  proof is accepted, what the address has consumed plus the amount is within the
  ceiling of that proof, and the claim cap and the total cap have room for the amount:
  the ceilings of earlier proofs play no part. So after a claim of \<open>m1\<close> under any
  ceiling \<open>c1\<close>, a claim of \<open>m2\<close> under a newer proof with the ceiling \<open>c2\<close> is honoured
  whenever the consumed amount and \<open>m1 + m2\<close> stay within \<open>c2\<close> and the caps have room,
  and the address has then consumed \<open>m1 + m2\<close> more than before, be that above \<open>c1\<close>.
\<close>

theorem ceiling_of_each_proof:
  "(claimLands vf a amount c sg s = Inr s' \<longrightarrow>
      allocation s' a = allocation s a + amount \<and> allocation s' a \<le> c)
   \<and> (c < allocation s a \<longrightarrow>
      isl (claimLands vf a amount c sg s) \<and> after vf (ClaimLands a amount c sg) s = s)
   \<and> (c < allocation s a \<and> claimActive s \<and> vf (trusted_signer s) (a, c) sg \<longrightarrow>
      claimLands vf a amount c sg s = Inl CeilingExceeded)
   \<and> ((\<exists>s'. claimLands vf a amount c sg s = Inr s') =
        (claimActive s \<and> vf (trusted_signer s) (a, c) sg \<and> allocation s a + amount \<le> c
         \<and> claimedCount s + amount \<le> maxClaimable s
         \<and> claimedCount s + publicMintedCount s + amount \<le> maxTotal s))
   \<and> (claimLands vf a m1 c1 sg1 s = Inr s1 \<and> vf (trusted_signer s) (a, c2) sg2
        \<and> allocation s a + m1 + m2 \<le> c2
        \<and> claimedCount s + m1 + m2 \<le> maxClaimable s
        \<and> claimedCount s + publicMintedCount s + m1 + m2 \<le> maxTotal s \<longrightarrow>
      (\<exists>s2. claimLands vf a m2 c2 sg2 s1 = Inr s2
          \<and> allocation s2 a = allocation s a + m1 + m2))"
proof (intro conjI impI)
  assume i: "claimLands vf a amount c sg s = Inr s'"
  from claimLands_Inr(3,4) [OF i]
  show "allocation s' a = allocation s a + amount" and "allocation s' a \<le> c"
    by simp_all
next
  assume "c < allocation s a"
  then have r: "isl (claimLands vf a amount c sg s)"
    by (intro claimLands_refused) simp
  then show "isl (claimLands vf a amount c sg s)" .
  from r show "after vf (ClaimLands a amount c sg) s = s"
    by (intro isl_after) simp
next
  assume "c < allocation s a \<and> claimActive s \<and> vf (trusted_signer s) (a, c) sg"
  then show "claimLands vf a amount c sg s = Inl CeilingExceeded"
    by (intro claimLands_over) simp_all
next
  show "(\<exists>s'. claimLands vf a amount c sg s = Inr s') =
        (claimActive s \<and> vf (trusted_signer s) (a, c) sg \<and> allocation s a + amount \<le> c
         \<and> claimedCount s + amount \<le> maxClaimable s
         \<and> claimedCount s + publicMintedCount s + amount \<le> maxTotal s)"
    by (rule claimLands_honoured)
next
  assume h: "claimLands vf a m1 c1 sg1 s = Inr s1 \<and> vf (trusted_signer s) (a, c2) sg2
        \<and> allocation s a + m1 + m2 \<le> c2
        \<and> claimedCount s + m1 + m2 \<le> maxClaimable s
        \<and> claimedCount s + publicMintedCount s + m1 + m2 \<le> maxTotal s"
  then have i: "claimLands vf a m1 c1 sg1 s = Inr s1" by simp
  note e = claimLands_Inr [OF i] and f = claimLands_Inr_frame [OF i]
  have "claimActive s1 \<and> vf (trusted_signer s1) (a, c2) sg2 \<and> allocation s1 a + m2 \<le> c2
      \<and> claimedCount s1 + m2 \<le> maxClaimable s1
      \<and> claimedCount s1 + publicMintedCount s1 + m2 \<le> maxTotal s1"
    using h e(1) by (simp add: e(4,5,6,7) f)
  then obtain s2 where j: "claimLands vf a m2 c2 sg2 s1 = Inr s2"
    using claimLands_honoured [of vf a m2 c2 sg2 s1] by blast
  from claimLands_Inr(4) [OF j] have "allocation s2 a = allocation s a + m1 + m2"
    by (simp add: e(4))
  with j show "\<exists>s2. claimLands vf a m2 c2 sg2 s1 = Inr s2
      \<and> allocation s2 a = allocation s a + m1 + m2"
    by blast
qed

theorem ceiling_of_each_proof_witness:
  "claimLands demo_verify 5 1 1 (sign 2 5 1) e2e
     = Inr (after demo_verify (ClaimLands 5 1 1 (sign 2 5 1)) e2e)
   \<and> (\<exists>s'. claimLands demo_verify 5 2 3 (sign 2 5 3)
            (after demo_verify (ClaimLands 5 1 1 (sign 2 5 1)) e2e) = Inr s'
        \<and> allocation s' 5 = 3)
   \<and> allocation (serve demo_verify minter5 e2e) 5 = 3
   \<and> claimLands demo_verify 5 1 2 (sign 2 5 2) (serve demo_verify minter5 e2e)
        = Inl CeilingExceeded
   \<and> after demo_verify (ClaimLands 5 1 2 (sign 2 5 2)) (serve demo_verify minter5 e2e)
        = serve demo_verify minter5 e2e"
proof -
  let ?s1 = "after demo_verify (ClaimLands 5 1 1 (sign 2 5 1)) e2e"
  let ?s = "serve demo_verify minter5 e2e"
  have first: "claimLands demo_verify 5 1 1 (sign 2 5 1) e2e = Inr ?s1"
    by (simp add: run_defs)
  have room: "demo_verify (trusted_signer e2e) (5, 3) (sign 2 5 3)
      \<and> allocation e2e 5 + 1 + 2 \<le> 3
      \<and> claimedCount e2e + 1 + 2 \<le> maxClaimable e2e
      \<and> claimedCount e2e + publicMintedCount e2e + 1 + 2 \<le> maxTotal e2e"
    by (simp add: land_demo_defs maxTotal_def)
  from ceiling_of_each_proof [where vf = demo_verify and a = 5 and ?m1.0 = 1 and ?c1.0 = 1
      and ?sg1.0 = "sign 2 5 1" and s = e2e and ?s1.0 = ?s1 and ?m2.0 = 2 and ?c2.0 = 3
      and ?sg2.0 = "sign 2 5 3"] first room
  obtain s' where i: "claimLands demo_verify 5 2 3 (sign 2 5 3) ?s1 = Inr s'"
    and "allocation s' 5 = allocation e2e 5 + 1 + 2"
    by blast
  then have 1: "allocation s' 5 = 3"
    by (simp add: land_demo_defs)
  have al: "allocation ?s 5 = 3"
    by (simp add: minter5_def run_defs)
  have g: "claimActive ?s \<and> demo_verify (trusted_signer ?s) (5, 2) (sign 2 5 2)"
    by (simp add: minter5_def run_defs)
  from ceiling_of_each_proof [where vf = demo_verify and a = 5 and amount = 1 and c = 2
      and sg = "sign 2 5 2" and s = ?s] al g
  have 2: "claimLands demo_verify 5 1 2 (sign 2 5 2) ?s = Inl CeilingExceeded
      \<and> after demo_verify (ClaimLands 5 1 2 (sign 2 5 2)) ?s = ?s"
    by simp
  from first i 1 al 2 show ?thesis by blast
qed

text \<open>
  C5, as the spec states it, fails: after one land has been claimed, the admin sets
  both caps to 0, and the counters sum to 1 while \<open>maxTotal\<close> is 0.
\<close>

theorem cap_change_breaks_total_counterexample:
  "outcomes demo_verify narrowing e2e = [None, None]
   \<and> claimedCount (serve demo_verify narrowing e2e)
       + publicMintedCount (serve demo_verify narrowing e2e) = 1
   \<and> maxTotal (serve demo_verify narrowing e2e) = 0
   \<and> \<not> claimedCount (serve demo_verify narrowing e2e)
         + publicMintedCount (serve demo_verify narrowing e2e)
       \<le> maxTotal (serve demo_verify narrowing e2e)"
  by (simp add: narrowing_def run_defs)

text \<open>
  C5, amended. Started where \<open>claimedCount + publicMintedCount \<le> maxTotal\<close> holds, with
  \<open>maxTotal\<close> the sum of the live caps, the inequality holds after every request of a
  list, completed or refused, as long as no cap change of the admin in the list puts
  the sum of the caps below what has been issued when it is made. A refused request
  changes nothing, and a claim or a mint that completes leaves the inequality true
  whatever the state before it was.
\<close>

theorem issuance_within_total:
  assumes "claimedCount s + publicMintedCount s \<le> maxTotal s" and "all_keep_caps vf rs s"
  shows "(\<forall>k. claimedCount (serve vf (take k rs) s) + publicMintedCount (serve vf (take k rs) s)
             \<le> maxTotal (serve vf (take k rs) s))
    \<and> (\<forall>e. handle vf r s0 = Inl e \<longrightarrow> after vf r s0 = s0)
    \<and> (\<forall>s1. claimLands vf a amount c sg s0 = Inr s1 \<longrightarrow>
          claimedCount s1 + publicMintedCount s1 \<le> maxTotal s1)
    \<and> (\<forall>s1. mintLands now a amount v s0 = Inr s1 \<longrightarrow>
          claimedCount s1 + publicMintedCount s1 \<le> maxTotal s1)"
  using assms
  by (auto simp add: serve_within_total all_keep_caps_take after_refused
      dest: claimLands_Inr(9) mintLands_Inr(7))

theorem issuance_within_total_witness:
  "claimedCount e2e + publicMintedCount e2e \<le> maxTotal e2e
   \<and> all_keep_caps demo_verify widening e2e
   \<and> outcomes demo_verify widening e2e
       = [None, None, None, Some PublicSupplyExceeded, Some Unauthorized]
   \<and> claimedCount (serve demo_verify widening e2e) = 1
   \<and> publicMintedCount (serve demo_verify widening e2e) = 4
   \<and> claimedCount (serve demo_verify widening e2e)
       + publicMintedCount (serve demo_verify widening e2e)
     \<le> maxTotal (serve demo_verify widening e2e)"
proof -
  have 1: "claimedCount e2e + publicMintedCount e2e \<le> maxTotal e2e"
    by (simp add: land_demo_defs maxTotal_def)
  have 2: "all_keep_caps demo_verify widening e2e"
    by (simp add: widening_def run_defs)
  have 3: "outcomes demo_verify widening e2e
       = [None, None, None, Some PublicSupplyExceeded, Some Unauthorized]"
    by (simp add: widening_def run_defs)
  have 4: "claimedCount (serve demo_verify widening e2e) = 1
      \<and> publicMintedCount (serve demo_verify widening e2e) = 4"
    by (simp add: widening_def run_defs)
  have 5: "take 5 widening = widening"
    by (simp add: widening_def)
  from issuance_within_total [OF 1 2] have
    "claimedCount (serve demo_verify (take 5 widening) e2e)
       + publicMintedCount (serve demo_verify (take 5 widening) e2e)
     \<le> maxTotal (serve demo_verify (take 5 widening) e2e)"
    by blast
  with 1 2 3 4 5 show ?thesis by simp
qed

text \<open>
  C7. A public mint of \<open>n\<close> lands at the unit price \<open>p\<close> completes only with a payment of
  exactly \<open>n * p\<close>. Where the payment \<open>n * p\<close> completes, every other payment is refused
  with \<open>IncorrectPayment\<close>: \<open>n * p + 1\<close> is, and \<open>n * p - 1\<close> is (a payment there is when
  \<open>n * p\<close> is not 0).
\<close>

theorem exact_payment:
  "(mintLands now a n v s = Inr s' \<longrightarrow> v = unitPrice s * n)
   \<and> (\<not> isl (mintLands now a n (unitPrice s * n) s) \<and> v \<noteq> unitPrice s * n \<longrightarrow>
        mintLands now a n v s = Inl IncorrectPayment)
   \<and> (\<not> isl (mintLands now a n (unitPrice s * n) s) \<longrightarrow>
        mintLands now a n (unitPrice s * n + 1) s = Inl IncorrectPayment)
   \<and> (\<not> isl (mintLands now a n (unitPrice s * n) s) \<and> 0 < unitPrice s * n \<longrightarrow>
        mintLands now a n (unitPrice s * n - 1) s = Inl IncorrectPayment)"
proof (intro conjI impI)
  assume "mintLands now a n v s = Inr s'"
  then show "v = unitPrice s * n" by (rule mintLands_Inr(1))
next
  assume "\<not> isl (mintLands now a n (unitPrice s * n) s) \<and> v \<noteq> unitPrice s * n"
  then show "mintLands now a n v s = Inl IncorrectPayment"
    by (intro mintLands_wrong_payment [of now a n "unitPrice s * n"]) simp_all
next
  assume "\<not> isl (mintLands now a n (unitPrice s * n) s)"
  then show "mintLands now a n (unitPrice s * n + 1) s = Inl IncorrectPayment"
    by (intro mintLands_wrong_payment [of now a n "unitPrice s * n"]) simp_all
next
  assume h: "\<not> isl (mintLands now a n (unitPrice s * n) s) \<and> 0 < unitPrice s * n"
  then have "unitPrice s * n - 1 \<noteq> unitPrice s * n" by arith
  with h show "mintLands now a n (unitPrice s * n - 1) s = Inl IncorrectPayment"
    by (intro mintLands_wrong_payment [of now a n "unitPrice s * n"]) simp_all
qed

theorem exact_payment_witness:
  "unitPrice deployed * 2 = 100
   \<and> \<not> isl (mintLands 1000 3 2 100 deployed)
   \<and> mintLands 1000 3 2 99 deployed = Inl IncorrectPayment
   \<and> mintLands 1000 3 2 101 deployed = Inl IncorrectPayment
   \<and> mintLands 1000 3 2 50 deployed = Inl IncorrectPayment"
proof -
  have p: "unitPrice deployed * 2 = 100"
    by (simp add: land_demo_defs)
  have ok: "\<not> isl (mintLands 1000 3 2 (unitPrice deployed * 2) deployed)"
    by (simp add: run_defs)
  from exact_payment [where now = 1000 and a = 3 and n = 2 and s = deployed and v = 50] p ok
  show ?thesis by simp
qed

end
